theory Spec2Isabelle
  imports Complex_Main "HOL-Library.Monad_Syntax"
begin

section \<open>JavaScript numbers\<close>

text \<open>
  The satellite position calculator (class \<open>SatelliteCalculator\<close>) works on JavaScript
  numbers. A number is modelled as a real (an exactly computed finite double) or one of the
  three special values of IEEE 754; every operator of the source is a function on this type,
  with the table of the special values written out. Three things are idealised and are part
  of the reading of every theorem below:
  \<^item> finite arithmetic and the functions of \<open>Math\<close> are exact (no rounding error, no
    overflow), and \<open>Math.PI\<close> is \<open>pi\<close>;
  \<^item> the two zeros are one value, which behaves as \<open>+0\<close> (so \<open>1 / 0\<close> is
    \<open>Infinity\<close>);
  \<^item> where the exact tangent has a pole, \<open>Math.tan\<close> of a double returns some finite
    double, never \<open>Infinity\<close>; that value is the parameter \<open>tanPole\<close> of the model
    (HOL's own \<open>tan\<close> would be \<open>0\<close> there).
\<close>

datatype number = Fin real | PInf | NInf | NaN

fun isFinite :: "number \<Rightarrow> bool" where
  "isFinite (Fin x) = True"
| "isFinite _ = False"

fun js_neg :: "number \<Rightarrow> number" where
  "js_neg (Fin x) = Fin (- x)"
| "js_neg PInf = NInf"
| "js_neg NInf = PInf"
| "js_neg NaN = NaN"

fun js_add :: "number \<Rightarrow> number \<Rightarrow> number" where
  "js_add (Fin x) (Fin y) = Fin (x + y)"
| "js_add NaN _ = NaN"
| "js_add _ NaN = NaN"
| "js_add PInf NInf = NaN"
| "js_add NInf PInf = NaN"
| "js_add PInf _ = PInf"
| "js_add _ PInf = PInf"
| "js_add NInf _ = NInf"
| "js_add _ NInf = NInf"

definition js_sub :: "number \<Rightarrow> number \<Rightarrow> number" where
  "js_sub a b = js_add a (js_neg b)"

text \<open>The sign of an infinite product or quotient; a zero operand counts as \<open>+0\<close>.\<close>

definition signedInf :: "bool \<Rightarrow> number" where
  "signedInf positive = (if positive then PInf else NInf)"

fun js_mul :: "number \<Rightarrow> number \<Rightarrow> number" where
  "js_mul (Fin x) (Fin y) = Fin (x * y)"
| "js_mul NaN _ = NaN"
| "js_mul _ NaN = NaN"
| "js_mul (Fin x) PInf = (if x = 0 then NaN else signedInf (0 < x))"
| "js_mul (Fin x) NInf = (if x = 0 then NaN else signedInf (x < 0))"
| "js_mul PInf (Fin y) = (if y = 0 then NaN else signedInf (0 < y))"
| "js_mul NInf (Fin y) = (if y = 0 then NaN else signedInf (y < 0))"
| "js_mul PInf PInf = PInf"
| "js_mul NInf NInf = PInf"
| "js_mul PInf NInf = NInf"
| "js_mul NInf PInf = NInf"

fun js_div :: "number \<Rightarrow> number \<Rightarrow> number" where
  "js_div (Fin x) (Fin y) =
     (if y = 0 then (if x = 0 then NaN else signedInf (0 < x)) else Fin (x / y))"
| "js_div NaN _ = NaN"
| "js_div _ NaN = NaN"
| "js_div (Fin x) _ = Fin 0"
| "js_div PInf (Fin y) = signedInf (0 \<le> y)"
| "js_div NInf (Fin y) = signedInf (y < 0)"
| "js_div _ _ = NaN"

text \<open>The remainder operator \<open>%\<close> truncates the quotient toward zero.\<close>

definition js_trunc :: "real \<Rightarrow> int" where
  "js_trunc x = (if 0 \<le> x then \<lfloor>x\<rfloor> else \<lceil>x\<rceil>)"

fun js_mod :: "number \<Rightarrow> number \<Rightarrow> number" where
  "js_mod (Fin x) (Fin y) = (if y = 0 then NaN else Fin (x - y * of_int (js_trunc (x / y))))"
| "js_mod NaN _ = NaN"
| "js_mod _ NaN = NaN"
| "js_mod (Fin x) _ = Fin x"
| "js_mod _ _ = NaN"

fun js_lt :: "number \<Rightarrow> number \<Rightarrow> bool" where
  "js_lt (Fin x) (Fin y) = (x < y)"
| "js_lt NaN _ = False"
| "js_lt _ NaN = False"
| "js_lt _ NInf = False"
| "js_lt PInf _ = False"
| "js_lt _ _ = True"

definition js_gt :: "number \<Rightarrow> number \<Rightarrow> bool" where
  "js_gt a b = js_lt b a"

definition js_ge :: "number \<Rightarrow> number \<Rightarrow> bool" where
  "js_ge a b = (a \<noteq> NaN \<and> b \<noteq> NaN \<and> \<not> js_lt a b)"

subsection \<open>The functions of \<open>Math\<close>\<close>

definition Math_PI :: number where
  "Math_PI = Fin pi"

fun Math_sin :: "number \<Rightarrow> number" where
  "Math_sin (Fin x) = Fin (sin x)"
| "Math_sin _ = NaN"

fun Math_cos :: "number \<Rightarrow> number" where
  "Math_cos (Fin x) = Fin (cos x)"
| "Math_cos _ = NaN"

text \<open>The tangent of a finite argument: the exact one, or \<open>tanPole\<close> at a pole.\<close>

definition tanOf :: "(real \<Rightarrow> real) \<Rightarrow> real \<Rightarrow> real" where
  "tanOf tanPole x = (if cos x = 0 then tanPole x else tan x)"

fun Math_tan :: "(real \<Rightarrow> real) \<Rightarrow> number \<Rightarrow> number" where
  "Math_tan tanPole (Fin x) = Fin (tanOf tanPole x)"
| "Math_tan tanPole _ = NaN"

fun Math_atan :: "number \<Rightarrow> number" where
  "Math_atan (Fin x) = Fin (arctan x)"
| "Math_atan PInf = Fin (pi / 2)"
| "Math_atan NInf = Fin (- (pi / 2))"
| "Math_atan NaN = NaN"

text \<open>The two-argument arctangent of finite arguments, in \<open>[-pi, pi]\<close>.\<close>

definition atan2 :: "real \<Rightarrow> real \<Rightarrow> real" where
  "atan2 y x =
     (if 0 < x then arctan (y / x)
      else if x < 0 then (if 0 \<le> y then arctan (y / x) + pi else arctan (y / x) - pi)
      else if 0 < y then pi / 2
      else if y < 0 then - (pi / 2)
      else 0)"

fun Math_atan2 :: "number \<Rightarrow> number \<Rightarrow> number" where
  "Math_atan2 (Fin y) (Fin x) = Fin (atan2 y x)"
| "Math_atan2 NaN _ = NaN"
| "Math_atan2 _ NaN = NaN"
| "Math_atan2 (Fin y) PInf = Fin 0"
| "Math_atan2 (Fin y) NInf = Fin (if 0 \<le> y then pi else - pi)"
| "Math_atan2 PInf (Fin x) = Fin (pi / 2)"
| "Math_atan2 NInf (Fin x) = Fin (- (pi / 2))"
| "Math_atan2 PInf PInf = Fin (pi / 4)"
| "Math_atan2 PInf NInf = Fin (3 * pi / 4)"
| "Math_atan2 NInf PInf = Fin (- (pi / 4))"
| "Math_atan2 NInf NInf = Fin (- (3 * pi / 4))"

fun Math_sqrt :: "number \<Rightarrow> number" where
  "Math_sqrt (Fin x) = (if x < 0 then NaN else Fin (sqrt x))"
| "Math_sqrt PInf = PInf"
| "Math_sqrt _ = NaN"

text \<open>\<open>Math.round\<close> rounds to the nearest integer, a tie toward \<open>+Infinity\<close>.\<close>

fun Math_round :: "number \<Rightarrow> number" where
  "Math_round (Fin x) = Fin (of_int \<lfloor>x + 1 / 2\<rfloor>)"
| "Math_round a = a"

text \<open>\<open>Math.pow\<close> for the exponents the calculator uses: a count of decimals.\<close>

fun Math_pow :: "number \<Rightarrow> nat \<Rightarrow> number" where
  "Math_pow a 0 = Fin 1"
| "Math_pow (Fin x) n = Fin (x ^ n)"
| "Math_pow PInf n = PInf"
| "Math_pow NInf n = (if even n then PInf else NInf)"
| "Math_pow NaN n = NaN"

section \<open>The calculator\<close>

text \<open>The constants set by the constructor.\<close>

definition EARTH_RADIUS :: number where
  "EARTH_RADIUS = Fin 6378.137"

definition GEO_ALTITUDE :: number where
  "GEO_ALTITUDE = Fin 35786"

definition GEO_RADIUS :: number where
  "GEO_RADIUS = js_add EARTH_RADIUS GEO_ALTITUDE"

definition toRadians :: "number \<Rightarrow> number" where
  "toRadians degrees = js_div (js_mul degrees Math_PI) (Fin 180)"

definition toDegrees :: "number \<Rightarrow> number" where
  "toDegrees radians = js_div (js_mul radians (Fin 180)) Math_PI"

text \<open>
  \<open>normalizeAngle\<close> runs \<open>while (angle < 0) angle += 360\<close> and then
  \<open>while (angle >= 360) angle -= 360\<close>. On an infinite angle a loop never ends, so each
  loop is a partial function and not returning is the value \<open>None\<close>.
\<close>

partial_function (option) normalizeUp :: "number \<Rightarrow> number option" where
  "normalizeUp angle =
     (if js_lt angle (Fin 0) then normalizeUp (js_add angle (Fin 360)) else Some angle)"

partial_function (option) normalizeDown :: "number \<Rightarrow> number option" where
  "normalizeDown angle =
     (if js_ge angle (Fin 360) then normalizeDown (js_sub angle (Fin 360)) else Some angle)"

definition normalizeAngle :: "number \<Rightarrow> number option" where
  "normalizeAngle angle = normalizeUp angle \<bind> normalizeDown"

definition round_js :: "number \<Rightarrow> nat \<Rightarrow> number" where
  "round_js v decimals =
     js_div (Math_round (js_mul v (Math_pow (Fin 10) decimals))) (Math_pow (Fin 10) decimals)"

definition calculateAzimuth ::
  "(real \<Rightarrow> real) \<Rightarrow> number \<Rightarrow> number \<Rightarrow> number \<Rightarrow> number option" where
  "calculateAzimuth tanPole obsLat obsLon satLon =
     (let latRad = toRadians obsLat;
          lonDiff = toRadians (js_sub satLon obsLon);
          azimuthRad = Math_atan2 (Math_tan tanPole lonDiff) (Math_sin latRad);
          azimuth = toDegrees azimuthRad;
          azimuth' = (if js_lt obsLat (Fin 0)
                      then js_mod (js_add azimuth (Fin 360)) (Fin 360)
                      else js_add (Fin 180) azimuth)
      in normalizeAngle azimuth')"

definition calculateElevation :: "number \<Rightarrow> number \<Rightarrow> number \<Rightarrow> number" where
  "calculateElevation obsLat obsLon satLon =
     (let latRad = toRadians obsLat;
          lonDiffRad = toRadians (js_sub satLon obsLon);
          cosGamma = js_mul (Math_cos latRad) (Math_cos lonDiffRad);
          ratio = js_div GEO_RADIUS EARTH_RADIUS;
          elevation = Math_atan
            (js_div (js_sub cosGamma (js_div (Fin 1) ratio))
                    (Math_sqrt (js_sub (Fin 1) (js_mul cosGamma cosGamma))))
      in toDegrees elevation)"

definition calculateLNBTilt ::
  "(real \<Rightarrow> real) \<Rightarrow> number \<Rightarrow> number \<Rightarrow> number \<Rightarrow> number" where
  "calculateLNBTilt tanPole obsLat obsLon satLon =
     (let latRad = toRadians obsLat;
          lonDiffRad = toRadians (js_sub satLon obsLon);
          tiltRad = Math_atan (js_div (Math_sin lonDiffRad) (Math_tan tanPole latRad))
      in toDegrees tiltRad)"

text \<open>
  The classification inside \<open>calculateAll\<close>: the chain of \<open>if\<close>/\<open>else if\<close> that
  assigns \<open>signalQuality\<close>, as a function of the local variable \<open>elevation\<close>.
\<close>

definition signalQualityOf :: "number \<Rightarrow> string" where
  "signalQualityOf elevation =
     (if js_gt elevation (Fin 30) then ''excellent''
      else if js_gt elevation (Fin 20) then ''good''
      else if js_gt elevation (Fin 10) then ''fair''
      else if js_gt elevation (Fin 0) then ''poor''
      else ''none'')"

text \<open>The result object of \<open>calculateAll\<close>.\<close>

record PointingSolution =
  azimuth :: number
  elevation :: number
  lnbTilt :: number
  isVisible :: bool
  signalQuality :: string

definition calculateAll ::
  "(real \<Rightarrow> real) \<Rightarrow> number \<Rightarrow> number \<Rightarrow> number \<Rightarrow> PointingSolution option" where
  "calculateAll tanPole obsLat obsLon satLon =
     (case calculateAzimuth tanPole obsLat obsLon satLon of
        None \<Rightarrow> None
      | Some azimuth0 \<Rightarrow>
          (let elevation0 = calculateElevation obsLat obsLon satLon;
               lnbTilt0 = calculateLNBTilt tanPole obsLat obsLon satLon;
               isVisible0 = js_gt elevation0 (Fin 0);
               signalQuality0 = signalQualityOf elevation0
           in Some \<lparr>azimuth = round_js azimuth0 1,
                     elevation = round_js elevation0 1,
                     lnbTilt = round_js lnbTilt0 1,
                     isVisible = isVisible0,
                     signalQuality = signalQuality0\<rparr>))"

definition calculateDistance :: "number \<Rightarrow> number \<Rightarrow> number \<Rightarrow> number" where
  "calculateDistance obsLat obsLon satLon =
     (let latRad = toRadians obsLat;
          lonDiffRad = toRadians (js_sub satLon obsLon);
          cosGamma = js_mul (Math_cos latRad) (Math_cos lonDiffRad);
          distance = Math_sqrt
            (js_sub (js_add (js_mul EARTH_RADIUS EARTH_RADIUS) (js_mul GEO_RADIUS GEO_RADIUS))
                    (js_mul (js_mul (js_mul (Fin 2) EARTH_RADIUS) GEO_RADIUS) cosGamma))
      in Math_round distance)"

section \<open>The vocabulary of the specification\<close>

text \<open>
  The definitions of this section are not code: they are the words of the specification,
  written down so that the calculator can be compared with them.
\<close>

text \<open>The input contract: a latitude in \<open>[-90, 90]\<close>, longitudes in \<open>[-180, 180]\<close>.\<close>

definition validInput :: "real \<Rightarrow> real \<Rightarrow> real \<Rightarrow> bool" where
  "validInput obsLat obsLon satLon =
     (- 90 \<le> obsLat \<and> obsLat \<le> 90 \<and> - 180 \<le> obsLon \<and> obsLon \<le> 180 \<and>
      - 180 \<le> satLon \<and> satLon \<le> 180)"

text \<open>Wrapping into \<open>[0, 360)\<close>: a single modulo, corrected for negative values.\<close>

definition wrap360 :: "real \<Rightarrow> real" where
  "wrap360 x = x - 360 * of_int \<lfloor>x / 360\<rfloor>"

text \<open>\<open>raw = atan2(tan(\<Delta>\<lambda>), sin(\<phi>))\<close>, in degrees.\<close>

definition rawAzimuth :: "(real \<Rightarrow> real) \<Rightarrow> real \<Rightarrow> real \<Rightarrow> real \<Rightarrow> real" where
  "rawAzimuth tanPole obsLat obsLon satLon =
     atan2 (tanOf tanPole ((satLon - obsLon) * pi / 180)) (sin (obsLat * pi / 180)) * 180 / pi"

text \<open>
  \<open>cosGamma = cos(\<phi>) * cos(\<Delta>\<lambda>)\<close>, and the great-circle angular separation between the
  observer and the sub-satellite point, of which it is the cosine.
\<close>

definition cosGammaOf :: "real \<Rightarrow> real \<Rightarrow> real \<Rightarrow> real" where
  "cosGammaOf obsLat obsLon satLon = cos (obsLat * pi / 180) * cos ((satLon - obsLon) * pi / 180)"

definition separation :: "real \<Rightarrow> real \<Rightarrow> real \<Rightarrow> real" where
  "separation obsLat obsLon satLon = arccos (cosGammaOf obsLat obsLon satLon)"

text \<open>The ratio \<open>R_e / R_g\<close>, the cosine of the separation at the geometric horizon.\<close>

definition horizonCos :: real where
  "horizonCos = 6378.137 / (6378.137 + 35786)"



text \<open>The order of the signal qualities, for "monotonic".\<close>

definition qualityRank :: "string \<Rightarrow> nat" where
  "qualityRank q =
     (if q = ''excellent'' then 4 else if q = ''good'' then 3 else if q = ''fair'' then 2
      else if q = ''poor'' then 1 else 0)"


section \<open>Auxiliary definitions\<close>

text \<open>
  Closed forms of two expressions of the code, polynomial bounds for the numerical
  evaluations, and the results at two concrete inputs.
\<close>

text \<open>The radicand of the distance, as a function of cosGamma.\<close>

definition radicand :: "real \<Rightarrow> real" where
  "radicand cg = 6378.137 * 6378.137 + 42164.137 * 42164.137 - 2 * 6378.137 * 42164.137 * cg"

text \<open>
  A sample behaviour of \<open>Math.tan\<close> at the poles, for concrete evaluations: the double
  that \<open>Math.tan(Math.PI / 2)\<close> returns.
\<close>

definition tanPoleDouble :: "real \<Rightarrow> real" where
  "tanPoleDouble x = 16331239353195370"

text \<open>What \<open>calculateAll\<close> returns for an observer on the equator under the satellite.\<close>

definition originSolution :: PointingSolution where
  "originSolution = \<lparr>azimuth = Fin 180, elevation = Fin 90, lnbTilt = NaN, isVisible = True,
     signalQuality = ''excellent''\<rparr>"

text \<open>The argument of the arctangent of the elevation, as a function of cosGamma.\<close>

definition elevationQuotient :: "real \<Rightarrow> real" where
  "elevationQuotient cg = (cg - horizonCos) / sqrt (1 - cg\<^sup>2)"

text \<open>Taylor polynomials of the sine and the cosine with the remainder taken off or added.\<close>

definition sinLow :: "real \<Rightarrow> real" where
  "sinLow x = x - x^3 / 6 + x^5 / 120 - x^7 / 5040 - x^9 / 362880"

definition sinUp :: "real \<Rightarrow> real" where
  "sinUp x = x - x^3 / 6 + x^5 / 120 - x^7 / 5040 + x^9 / 362880"

definition cosLow :: "real \<Rightarrow> real" where
  "cosLow x = 1 - x^2 / 2 + x^4 / 24 - x^6 / 720 - x^8 / 40320"

definition cosUp :: "real \<Rightarrow> real" where
  "cosUp x = 1 - x^2 / 2 + x^4 / 24 - x^6 / 720 + x^8 / 40320"

text \<open>What \<open>calculateAll\<close> returns at 81.29 degrees north on the satellite's meridian.\<close>

definition northEdgeSolution :: PointingSolution where
  "northEdgeSolution = \<lparr>azimuth = Fin 180, elevation = Fin 0, lnbTilt = Fin 0, isVisible = True,
     signalQuality = ''poor''\<rparr>"

section \<open>The calculator on finite inputs\<close>

subsection \<open>Angle normalisation\<close>

lemma wrap360_range: "0 \<le> wrap360 x \<and> wrap360 x < 360"
proof -
  have "of_int \<lfloor>x / 360\<rfloor> \<le> x / 360" "x / 360 < of_int \<lfloor>x / 360\<rfloor> + 1"
    by linarith+
  then show ?thesis unfolding wrap360_def by (simp add: field_simps)
qed

lemma wrap360_id: "0 \<le> x \<Longrightarrow> x < 360 \<Longrightarrow> wrap360 x = x"
proof -
  assume "0 \<le> x" "x < 360"
  then have "\<lfloor>x / 360\<rfloor> = 0" by (simp add: floor_eq_iff)
  then show ?thesis by (simp add: wrap360_def)
qed

lemma wrap360_add: "wrap360 (x + 360) = wrap360 x"
proof -
  have "\<lfloor>(x + 360) / 360\<rfloor> = \<lfloor>x / 360\<rfloor> + 1"
    by (simp add: add_divide_distrib)
  then show ?thesis by (simp add: wrap360_def algebra_simps)
qed

lemma wrap360_sub: "wrap360 (x - 360) = wrap360 x"
  using wrap360_add [of "x - 360"] by simp

lemma normalizeUp_Fin_aux:
  "x < 0 \<Longrightarrow> - 360 * real n \<le> x \<Longrightarrow> normalizeUp (Fin x) = Some (Fin (wrap360 x))"
proof (induction n arbitrary: x)
  case 0
  then show ?case by simp
next
  case (Suc n)
  show ?case
  proof (cases "x + 360 < 0")
    case True
    have "- 360 * real n \<le> x + 360" using Suc.prems by simp
    from Suc.IH [OF True this] show ?thesis
      using Suc.prems(1) by (subst normalizeUp.simps) (simp add: wrap360_add)
  next
    case False
    then have "wrap360 (x + 360) = x + 360"
      using Suc.prems(1) by (intro wrap360_id) simp_all
    then show ?thesis
      using Suc.prems(1) False
      by (subst normalizeUp.simps, subst normalizeUp.simps) (simp add: wrap360_add)
  qed
qed

lemma normalizeUp_Fin:
  "normalizeUp (Fin x) = Some (Fin (if x < 0 then wrap360 x else x))"
proof (cases "x < 0")
  case True
  obtain n :: nat where "- x / 360 \<le> real n" using real_arch_simple by blast
  then have "- 360 * real n \<le> x" by (simp add: field_simps)
  from normalizeUp_Fin_aux [OF True this] True show ?thesis by simp
next
  case False
  then show ?thesis by (subst normalizeUp.simps) simp
qed

lemma normalizeDown_Fin_aux:
  "360 \<le> x \<Longrightarrow> x \<le> 360 * real n \<Longrightarrow> normalizeDown (Fin x) = Some (Fin (wrap360 x))"
proof (induction n arbitrary: x)
  case 0
  then show ?case by simp
next
  case (Suc n)
  show ?case
  proof (cases "360 \<le> x - 360")
    case True
    have "x - 360 \<le> 360 * real n" using Suc.prems by simp
    from Suc.IH [OF True this] show ?thesis
      using Suc.prems(1)
      by (subst normalizeDown.simps) (simp add: wrap360_sub js_ge_def js_sub_def)
  next
    case False
    then have "wrap360 (x - 360) = x - 360"
      using Suc.prems(1) by (intro wrap360_id) simp_all
    then show ?thesis
      using Suc.prems(1) False
      by (subst normalizeDown.simps, subst normalizeDown.simps)
         (simp add: wrap360_sub js_ge_def js_sub_def)
  qed
qed

lemma normalizeDown_Fin:
  "normalizeDown (Fin x) = Some (Fin (if 360 \<le> x then wrap360 x else x))"
proof (cases "360 \<le> x")
  case True
  obtain n :: nat where "x / 360 \<le> real n" using real_arch_simple by blast
  then have "x \<le> 360 * real n" by (simp add: field_simps)
  from normalizeDown_Fin_aux [OF True this] True show ?thesis by simp
next
  case False
  then show ?thesis by (subst normalizeDown.simps) (simp add: js_ge_def)
qed

lemma normalizeAngle_Fin: "normalizeAngle (Fin x) = Some (Fin (wrap360 x))"
proof -
  have "0 \<le> wrap360 x" "wrap360 x < 360" using wrap360_range by auto
  moreover have "0 \<le> x \<Longrightarrow> x < 360 \<Longrightarrow> wrap360 x = x" by (rule wrap360_id)
  ultimately show ?thesis
    unfolding normalizeAngle_def by (simp add: normalizeUp_Fin normalizeDown_Fin)
qed

lemma toRadians_Fin: "toRadians (Fin d) = Fin (d * pi / 180)"
  by (simp add: toRadians_def Math_PI_def)

lemma toDegrees_Fin: "toDegrees (Fin r) = Fin (r * 180 / pi)"
  by (simp add: toDegrees_def Math_PI_def)

subsection \<open>The azimuth in closed form\<close>

lemma atan2_bounds: "- pi \<le> atan2 y x \<and> atan2 y x \<le> pi"
proof -
  have b: "- (pi / 2) < arctan (y / x)" "arctan (y / x) < pi / 2"
    using arctan_bounded [of "y / x"] by auto
  consider "0 < x" | "x < 0" "0 \<le> y" | "x < 0" "y < 0" | "x = 0"
    by linarith
  then show ?thesis
  proof cases
    case 1
    then show ?thesis using b by (simp add: atan2_def)
  next
    case 2
    then have "y / x \<le> 0" by (simp add: divide_nonneg_neg)
    then have "arctan (y / x) \<le> 0" by simp
    then show ?thesis using 2 b by (simp add: atan2_def)
  next
    case 3
    then have "0 < y / x" by (simp add: divide_neg_neg)
    then have "0 < arctan (y / x)" by simp
    then show ?thesis using 3 b by (simp add: atan2_def)
  next
    case 4
    then show ?thesis using pi_gt_zero unfolding atan2_def by (auto; linarith)
  qed
qed

lemma rawAzimuth_bounds: "- 180 \<le> rawAzimuth tp a b c \<and> rawAzimuth tp a b c \<le> 180"
proof -
  let ?t = "atan2 (tanOf tp ((c - b) * pi / 180)) (sin (a * pi / 180))"
  have "- pi \<le> ?t" "?t \<le> pi" using atan2_bounds by auto
  then have "- 180 * pi \<le> ?t * 180" "?t * 180 \<le> 180 * pi" by auto
  then show ?thesis
    unfolding rawAzimuth_def by (simp add: pos_le_divide_eq pos_divide_le_eq)
qed

lemma js_mod_360: "0 \<le> x \<Longrightarrow> js_mod (Fin x) (Fin 360) = Fin (wrap360 x)"
  by (simp add: js_trunc_def wrap360_def)

lemma wrap360_idem: "wrap360 (wrap360 x) = wrap360 x"
  using wrap360_range [of x] by (simp add: wrap360_id)

lemma calculateAzimuth_Fin:
  "calculateAzimuth tp (Fin a) (Fin b) (Fin c) =
     Some (Fin (wrap360 (if a < 0 then rawAzimuth tp a b c else 180 + rawAzimuth tp a b c)))"
proof -
  have raw: "toDegrees (Math_atan2 (Math_tan tp (toRadians (js_sub (Fin c) (Fin b))))
               (Math_sin (toRadians (Fin a)))) = Fin (rawAzimuth tp a b c)"
    by (simp add: toRadians_Fin toDegrees_Fin js_sub_def rawAzimuth_def)
  have "0 \<le> rawAzimuth tp a b c + 360" using rawAzimuth_bounds [of tp a b c] by simp
  then have "js_mod (Fin (rawAzimuth tp a b c + 360)) (Fin 360) = Fin (wrap360 (rawAzimuth tp a b c))"
    by (simp only: js_mod_360 wrap360_add)
  then show ?thesis
    unfolding calculateAzimuth_def Let_def raw
    by (simp add: normalizeAngle_Fin wrap360_idem)
qed

subsection \<open>Elevation, tilt and distance in closed form\<close>

lemma cosGammaOf_abs: "\<bar>cosGammaOf a b c\<bar> \<le> 1"
proof -
  have "\<bar>cos (a * pi / 180)\<bar> * \<bar>cos ((c - b) * pi / 180)\<bar> \<le> 1 * 1"
    by (intro mult_mono) simp_all
  then show ?thesis by (simp add: cosGammaOf_def abs_mult)
qed

lemma cosGammaOf_sq: "(cosGammaOf a b c)\<^sup>2 \<le> 1"
  using cosGammaOf_abs [of a b c] by (simp add: abs_square_le_1)

lemma horizonCos_bounds: "0 < horizonCos \<and> horizonCos < 1"
  by (simp add: horizonCos_def)

lemma inverse_ratio: "js_div (Fin 1) (js_div GEO_RADIUS EARTH_RADIUS) = Fin horizonCos"
  by (simp add: GEO_RADIUS_def EARTH_RADIUS_def GEO_ALTITUDE_def horizonCos_def)

lemma cosGamma_Fin:
  "js_mul (Math_cos (toRadians (Fin a))) (Math_cos (toRadians (js_sub (Fin c) (Fin b))))
     = Fin (cosGammaOf a b c)"
  by (simp add: toRadians_Fin js_sub_def cosGammaOf_def)

lemma calculateElevation_Fin:
  "calculateElevation (Fin a) (Fin b) (Fin c) =
     toDegrees (Math_atan (js_div (Fin (cosGammaOf a b c - horizonCos))
                                  (Fin (sqrt (1 - (cosGammaOf a b c)\<^sup>2)))))"
proof -
  have "\<not> 1 - cosGammaOf a b c * cosGammaOf a b c < 0"
    using cosGammaOf_sq [of a b c] by (simp add: power2_eq_square)
  then show ?thesis
    unfolding calculateElevation_def Let_def cosGamma_Fin inverse_ratio
    by (simp add: js_sub_def power2_eq_square)
qed

lemma calculateElevation_inner:
  assumes "\<bar>cosGammaOf a b c\<bar> < 1"
  shows "calculateElevation (Fin a) (Fin b) (Fin c) =
     Fin (arctan ((cosGammaOf a b c - horizonCos) / sqrt (1 - (cosGammaOf a b c)\<^sup>2)) * 180 / pi)"
proof -
  have "(cosGammaOf a b c)\<^sup>2 < 1" using assms by (simp add: abs_square_less_1)
  then have "sqrt (1 - (cosGammaOf a b c)\<^sup>2) \<noteq> 0" by simp
  then show ?thesis by (simp add: calculateElevation_Fin toDegrees_Fin)
qed

lemma calculateElevation_zenith:
  assumes "cosGammaOf a b c = 1"
  shows "calculateElevation (Fin a) (Fin b) (Fin c) = Fin 90"
  using assms horizonCos_bounds
  by (simp add: calculateElevation_Fin toDegrees_Fin signedInf_def)

lemma calculateElevation_nadir:
  assumes "cosGammaOf a b c = - 1"
  shows "calculateElevation (Fin a) (Fin b) (Fin c) = Fin (- 90)"
  using assms horizonCos_bounds
  by (simp add: calculateElevation_Fin toDegrees_Fin signedInf_def)

lemma calculateLNBTilt_Fin:
  "calculateLNBTilt tp (Fin a) (Fin b) (Fin c) =
     toDegrees (Math_atan (js_div (Fin (sin ((c - b) * pi / 180))) (Fin (tanOf tp (a * pi / 180)))))"
  by (simp add: calculateLNBTilt_def toRadians_Fin js_sub_def)

lemma radicand_lower: "cg \<le> 1 \<Longrightarrow> 35786\<^sup>2 \<le> radicand cg"
  by (simp add: radicand_def power2_eq_square)

lemma radicand_upper: "- 1 \<le> cg \<Longrightarrow> radicand cg \<le> 48542.274\<^sup>2"
  by (simp add: radicand_def power2_eq_square)

lemma calculateDistance_Fin:
  "calculateDistance (Fin a) (Fin b) (Fin c) =
     Fin (of_int \<lfloor>sqrt (radicand (cosGammaOf a b c)) + 1 / 2\<rfloor>)"
proof -
  have "cosGammaOf a b c \<le> 1" using cosGammaOf_abs [of a b c] by simp
  from radicand_lower [OF this] have "0 \<le> radicand (cosGammaOf a b c)"
    by (rule order_trans [rotated]) simp
  then have "\<not> 6378.137 * 6378.137 + 42164.137 * 42164.137
      - 2 * 6378.137 * 42164.137 * cosGammaOf a b c < 0"
    by (simp add: radicand_def)
  then show ?thesis
    unfolding calculateDistance_def Let_def cosGamma_Fin
    by (simp add: EARTH_RADIUS_def GEO_RADIUS_def GEO_ALTITUDE_def js_sub_def radicand_def)
qed

lemma distance_bounds:
  "35786 \<le> sqrt (radicand (cosGammaOf a b c)) \<and> sqrt (radicand (cosGammaOf a b c)) \<le> 48542.274"
proof -
  have c: "cosGammaOf a b c \<le> 1" "- 1 \<le> cosGammaOf a b c"
    using cosGammaOf_abs [of a b c] by simp_all
  have "sqrt (35786\<^sup>2) \<le> sqrt (radicand (cosGammaOf a b c))"
    using radicand_lower [OF c(1)] by (simp only: real_sqrt_le_iff)
  moreover have "sqrt (radicand (cosGammaOf a b c)) \<le> sqrt (48542.274\<^sup>2)"
    using radicand_upper [OF c(2)] by (simp only: real_sqrt_le_iff)
  ultimately show ?thesis by simp
qed

text \<open>
  Claim C10. \<open>calculateDistance\<close> returns a whole number of kilometres between 35786,
  the slant range at the sub-satellite point, and 48542, the rounded sum of the two radii.
  The bound rests on \<open>-1 \<le> cosGamma \<le> 1\<close> alone, so it holds for every finite input.
\<close>

theorem calculateDistance_range:
  "\<exists>N :: int. calculateDistance (Fin obsLat) (Fin obsLon) (Fin satLon) = Fin (of_int N)
     \<and> 35786 \<le> N \<and> N \<le> 48542"
proof -
  let ?d = "sqrt (radicand (cosGammaOf obsLat obsLon satLon))"
  have d: "35786 \<le> ?d" "?d \<le> 48542.274" using distance_bounds by auto
  have "35786 \<le> \<lfloor>?d + 1 / 2\<rfloor>" using d(1) by (simp add: le_floor_iff)
  moreover have "\<lfloor>?d + 1 / 2\<rfloor> \<le> 48542" using d(2) by (simp add: floor_le_iff)
  ultimately show ?thesis by (simp add: calculateDistance_Fin)
qed

subsection \<open>Azimuth\<close>

text \<open>
  Claim C3. On finite inputs \<open>calculateAzimuth\<close> returns, and what it returns is
  \<open>raw = atan2(tan(\<Delta>\<lambda>), sin(\<phi>))\<close> in degrees wrapped into \<open>[0, 360)\<close> when
  \<open>obsLat < 0\<close>, and \<open>180 + raw\<close> wrapped into \<open>[0, 360)\<close> otherwise, the equator
  included; the value lies in \<open>[0, 360)\<close>. No range of the inputs is needed.
\<close>

theorem calculateAzimuth_spec:
  "\<exists>az. calculateAzimuth tanPole (Fin obsLat) (Fin obsLon) (Fin satLon) = Some (Fin az)
     \<and> az = wrap360 (if obsLat < 0 then rawAzimuth tanPole obsLat obsLon satLon
                      else 180 + rawAzimuth tanPole obsLat obsLon satLon)
     \<and> 0 \<le> az \<and> az < 360"
  using wrap360_range by (simp add: calculateAzimuth_Fin)

subsection \<open>Signal quality\<close>

lemma signalQualityOf_Fin:
  "signalQualityOf (Fin e) =
     (if 30 < e then ''excellent'' else if 20 < e then ''good'' else if 10 < e then ''fair''
      else if 0 < e then ''poor'' else ''none'')"
  by (simp add: signalQualityOf_def js_gt_def)

text \<open>
  Claim C6. The classification is a step function of the elevation with strict lower bounds
  30, 20, 10 and 0: above 30 it is excellent, above 20 good, above 10 fair, above 0 poor, and
  at or below 0 none. An elevation of exactly 30 is good, and an elevation of exactly 0 is
  none and not visible; visibility is the test \<open>elevation > 0\<close>.
\<close>

theorem signalQuality_bands:
  "(30 < e \<longrightarrow> signalQualityOf (Fin e) = ''excellent'')
   \<and> (20 < e \<and> e \<le> 30 \<longrightarrow> signalQualityOf (Fin e) = ''good'')
   \<and> (10 < e \<and> e \<le> 20 \<longrightarrow> signalQualityOf (Fin e) = ''fair'')
   \<and> (0 < e \<and> e \<le> 10 \<longrightarrow> signalQualityOf (Fin e) = ''poor'')
   \<and> (e \<le> 0 \<longrightarrow> signalQualityOf (Fin e) = ''none'')
   \<and> signalQualityOf (Fin 30) = ''good''
   \<and> signalQualityOf (Fin 0) = ''none''
   \<and> \<not> js_gt (Fin 0) (Fin 0)
   \<and> (calculateAll tanPole obsLat obsLon satLon = Some s \<longrightarrow>
        signalQuality s = signalQualityOf (calculateElevation obsLat obsLon satLon)
        \<and> isVisible s = js_gt (calculateElevation obsLat obsLon satLon) (Fin 0))"
  by (auto simp: signalQualityOf_Fin js_gt_def calculateAll_def Let_def split: option.splits)

subsection \<open>Rounding to one decimal\<close>

lemma round_js_Fin: "round_js (Fin v) 1 = Fin (of_int \<lfloor>v * 10 + 1 / 2\<rfloor> / 10)"
  by (simp add: round_js_def)


lemma round_js_NaN: "round_js NaN 1 = NaN"
  by (simp add: round_js_def)





text \<open>
  Claim C9. Adding the same shift to both longitudes changes nothing: the four functions and
  \<open>calculateAll\<close> see the longitudes only through \<open>satLon - obsLon\<close>. (In the exact
  arithmetic of this model; the latitude is any number.)
\<close>

theorem longitude_shift:
  "calculateAzimuth tanPole obsLat (Fin (obsLon + c)) (Fin (satLon + c))
     = calculateAzimuth tanPole obsLat (Fin obsLon) (Fin satLon)
   \<and> calculateElevation obsLat (Fin (obsLon + c)) (Fin (satLon + c))
     = calculateElevation obsLat (Fin obsLon) (Fin satLon)
   \<and> calculateLNBTilt tanPole obsLat (Fin (obsLon + c)) (Fin (satLon + c))
     = calculateLNBTilt tanPole obsLat (Fin obsLon) (Fin satLon)
   \<and> calculateDistance obsLat (Fin (obsLon + c)) (Fin (satLon + c))
     = calculateDistance obsLat (Fin obsLon) (Fin satLon)
   \<and> calculateAll tanPole obsLat (Fin (obsLon + c)) (Fin (satLon + c))
     = calculateAll tanPole obsLat (Fin obsLon) (Fin satLon)"
proof -
  have d: "js_sub (Fin (satLon + c)) (Fin (obsLon + c)) = js_sub (Fin satLon) (Fin obsLon)"
    by (simp add: js_sub_def)
  show ?thesis
    unfolding calculateAll_def calculateAzimuth_def calculateElevation_def
      calculateLNBTilt_def calculateDistance_def d by simp
qed


lemma cosGammaOf_origin: "cosGammaOf 0 x x = 1"
  by (simp add: cosGammaOf_def)

lemma rawAzimuth_origin: "rawAzimuth tp 0 x x = 0"
  by (simp add: rawAzimuth_def atan2_def tanOf_def)

lemma calculateLNBTilt_origin: "calculateLNBTilt tp (Fin 0) (Fin x) (Fin x) = NaN"
  by (simp add: calculateLNBTilt_Fin tanOf_def toDegrees_def)

lemma calculateAll_origin:
  "calculateAll tp (Fin 0) (Fin x) (Fin x) =
     Some \<lparr>azimuth = Fin 180, elevation = Fin 90, lnbTilt = NaN, isVisible = True,
            signalQuality = ''excellent''\<rparr>"
proof -
  have az: "calculateAzimuth tp (Fin 0) (Fin x) (Fin x) = Some (Fin 180)"
    by (simp add: calculateAzimuth_Fin rawAzimuth_origin wrap360_id)
  have el: "calculateElevation (Fin 0) (Fin x) (Fin x) = Fin 90"
    by (rule calculateElevation_zenith) (rule cosGammaOf_origin)
  have r: "round_js (Fin 180) 1 = Fin 180" "round_js (Fin 90) 1 = Fin 90"
    by (simp_all add: round_js_def)
  show ?thesis
    unfolding calculateAll_def az el calculateLNBTilt_origin
    using r by (simp add: Let_def round_js_def js_gt_def signalQualityOf_Fin)
qed

theorem signalQuality_bands_witness:
  "signalQualityOf (Fin 35) = ''excellent'' \<and> signalQualityOf (Fin 25) = ''good''
   \<and> signalQualityOf (Fin 15) = ''fair'' \<and> signalQualityOf (Fin 5) = ''poor''
   \<and> signalQualityOf (Fin (- 5)) = ''none''
   \<and> calculateAll tanPoleDouble (Fin 0) (Fin 0) (Fin 0) = Some originSolution
   \<and> signalQuality originSolution = signalQualityOf (calculateElevation (Fin 0) (Fin 0) (Fin 0))
   \<and> isVisible originSolution = js_gt (calculateElevation (Fin 0) (Fin 0) (Fin 0)) (Fin 0)"
proof -
  have s: "calculateAll tanPoleDouble (Fin 0) (Fin 0) (Fin 0) = Some originSolution"
    unfolding originSolution_def by (rule calculateAll_origin)
  show ?thesis
    using signalQuality_bands [of "35"] signalQuality_bands [of "25"]
      signalQuality_bands [of "15"] signalQuality_bands [of "5"]
      signalQuality_bands [where e = "- 5" and tanPole = tanPoleDouble and obsLat = "Fin 0"
        and obsLon = "Fin 0" and satLon = "Fin 0" and s = originSolution] s
    by simp
qed


subsection \<open>The sub-satellite point and the equator\<close>

lemma calculateDistance_origin: "calculateDistance (Fin 0) (Fin x) (Fin x) = Fin 35786"
proof -
  have "radicand 1 = 35786\<^sup>2" by (simp add: radicand_def power2_eq_square)
  then have "sqrt (radicand 1) = 35786" by simp
  moreover have "\<lfloor>35786 + 1 / 2 :: real\<rfloor> = 35786" by linarith
  ultimately show ?thesis by (simp add: calculateDistance_Fin cosGammaOf_origin)
qed

text \<open>
  Claim C5, as the code has it. For an observer at latitude 0 and longitude 0 and a satellite
  at longitude 0 the elevation is 90 degrees, the distance is exactly 35786 km and the azimuth
  field is 180, which is a number; the tilt field is \<open>NaN\<close>, from \<open>0 / 0\<close> in
  \<open>sin(\<Delta>\<lambda>) / tan(\<phi>)\<close>.
\<close>

theorem sub_satellite_point:
  "calculateElevation (Fin 0) (Fin 0) (Fin 0) = Fin 90
   \<and> calculateDistance (Fin 0) (Fin 0) (Fin 0) = Fin 35786
   \<and> calculateAll tanPole (Fin 0) (Fin 0) (Fin 0) = Some originSolution
   \<and> elevation originSolution = Fin 90
   \<and> azimuth originSolution = Fin 180
   \<and> lnbTilt originSolution = NaN"
proof -
  have "calculateElevation (Fin 0) (Fin 0) (Fin 0) = Fin 90"
    by (rule calculateElevation_zenith) (rule cosGammaOf_origin)
  moreover have "calculateAll tanPole (Fin 0) (Fin 0) (Fin 0) = Some originSolution"
    unfolding originSolution_def by (rule calculateAll_origin)
  ultimately show ?thesis by (simp add: calculateDistance_origin) (simp add: originSolution_def)
qed

text \<open>
  Claim C5 as stated fails on its last part: at the sub-satellite point the tilt field of
  \<open>calculateAll\<close> is \<open>NaN\<close>.
\<close>

theorem sub_satellite_tilt_NaN:
  "calculateAll tanPoleDouble (Fin 0) (Fin 0) (Fin 0) = Some originSolution
   \<and> lnbTilt originSolution = NaN"
  by (simp add: calculateAll_origin) (simp add: originSolution_def)


lemma sin_latitude_pos:
  assumes "0 < a" "a \<le> 90"
  shows "0 < sin (a * pi / 180)"
proof -
  have "0 < a * pi / 180" using assms(1) by simp
  moreover have "a * pi / 180 < pi"
  proof -
    have "a * pi \<le> 90 * pi" using assms(2) by simp
    also have "\<dots> < 180 * pi" by simp
    finally show ?thesis by simp
  qed
  ultimately show ?thesis by (rule sin_gt_zero)
qed

lemma sin_latitude_neg:
  assumes "- 90 \<le> a" "a < 0"
  shows "sin (a * pi / 180) < 0"
proof -
  have "0 < sin ((- a) * pi / 180)"
    using assms by (intro sin_latitude_pos) simp_all
  then show ?thesis by simp
qed


lemma tanOf_nonzero:
  assumes "sin x \<noteq> 0" "tanPole x \<noteq> 0"
  shows "tanOf tanPole x \<noteq> 0"
  using assms by (simp add: tanOf_def tan_def)

lemma calculateElevation_finite: "isFinite (calculateElevation (Fin a) (Fin b) (Fin c))"
proof -
  consider "\<bar>cosGammaOf a b c\<bar> < 1" | "cosGammaOf a b c = 1" | "cosGammaOf a b c = - 1"
    using cosGammaOf_abs [of a b c] by linarith
  then show ?thesis
    by cases (simp_all add: calculateElevation_inner calculateElevation_zenith
        calculateElevation_nadir)
qed


lemma calculateLNBTilt_finite:
  assumes "tanOf tanPole (a * pi / 180) \<noteq> 0"
  shows "isFinite (calculateLNBTilt tanPole (Fin a) (Fin b) (Fin c))"
  using assms by (simp add: calculateLNBTilt_Fin toDegrees_Fin)




subsection \<open>Elevation against the angular separation\<close>

lemma elevationQuotient_mono:
  assumes "horizonCos \<le> c2" "c2 < c1" "c1 < 1"
  shows "elevationQuotient c2 < elevationQuotient c1"
proof -
  have pos: "0 < c2" using assms(1) horizonCos_bounds by linarith
  have sq: "c2\<^sup>2 < c1\<^sup>2" using pos assms(2) by (intro power_strict_mono) simp_all
  have "c1\<^sup>2 < 1" using pos assms(2,3) by (simp add: abs_square_less_1)
  then have s1: "0 < sqrt (1 - c1\<^sup>2)" by simp
  have s12: "sqrt (1 - c1\<^sup>2) \<le> sqrt (1 - c2\<^sup>2)" using sq by simp
  have "(c2 - horizonCos) / sqrt (1 - c2\<^sup>2) \<le> (c2 - horizonCos) / sqrt (1 - c1\<^sup>2)"
    using assms(1) s1 s12 by (intro divide_left_mono) simp_all
  also have "\<dots> < (c1 - horizonCos) / sqrt (1 - c1\<^sup>2)"
    using assms(2) s1 by (intro divide_strict_right_mono) simp_all
  finally show ?thesis by (simp add: elevationQuotient_def)
qed

lemma arctan_degrees_less_90: "arctan x * 180 / pi < 90"
proof -
  have "arctan x * 180 < 90 * pi" using arctan_ubound [of x] by simp
  then show ?thesis by (simp add: pos_divide_less_eq)
qed

lemma elevation_decreasing:
  assumes vis: "horizonCos \<le> cosGammaOf a2 b2 c"
    and sep: "separation a1 b1 c < separation a2 b2 c"
  shows "js_lt (calculateElevation (Fin a2) (Fin b2) (Fin c))
               (calculateElevation (Fin a1) (Fin b1) (Fin c))"
proof -
  let ?c1 = "cosGammaOf a1 b1 c" and ?c2 = "cosGammaOf a2 b2 c"
  have less: "?c2 < ?c1"
    using sep cosGammaOf_abs [of a1 b1 c] cosGammaOf_abs [of a2 b2 c]
    by (simp add: separation_def arccos_less_mono)
  have c2: "\<bar>?c2\<bar> < 1"
    using less vis horizonCos_bounds cosGammaOf_abs [of a1 b1 c] by linarith
  have e2: "calculateElevation (Fin a2) (Fin b2) (Fin c)
      = Fin (arctan (elevationQuotient ?c2) * 180 / pi)"
    using calculateElevation_inner [OF c2] by (simp add: elevationQuotient_def)
  show ?thesis
  proof (cases "?c1 = 1")
    case True
    then show ?thesis
      using arctan_degrees_less_90 by (simp add: e2 calculateElevation_zenith)
  next
    case False
    then have c1: "?c1 < 1" using cosGammaOf_abs [of a1 b1 c] by linarith
    then have "\<bar>?c1\<bar> < 1" using less c2 by linarith
    then have e1: "calculateElevation (Fin a1) (Fin b1) (Fin c)
        = Fin (arctan (elevationQuotient ?c1) * 180 / pi)"
      using calculateElevation_inner by (simp add: elevationQuotient_def)
    have "arctan (elevationQuotient ?c2) < arctan (elevationQuotient ?c1)"
      using elevationQuotient_mono [OF vis less c1] by (simp only: arctan_less_iff)
    then show ?thesis by (simp add: e1 e2 divide_strict_right_mono)
  qed
qed

lemma elevation_horizon:
  assumes "cosGammaOf a b c = horizonCos"
  shows "calculateElevation (Fin a) (Fin b) (Fin c) = Fin 0"
proof -
  have "\<bar>cosGammaOf a b c\<bar> < 1" using assms horizonCos_bounds by simp
  from calculateElevation_inner [OF this] show ?thesis using assms by simp
qed

text \<open>
  Claim C7. For one satellite longitude and an observer on the visible side (cosGamma at
  least \<open>R_e / R_g\<close>), an observer at a smaller great-circle separation from the
  sub-satellite point has a strictly greater elevation; and the elevation is exactly 0 where
  cosGamma is \<open>R_e / R_g\<close>.
\<close>

theorem elevation_separation:
  "(horizonCos \<le> cosGammaOf lat2 lon2 satLon
      \<and> separation lat1 lon1 satLon < separation lat2 lon2 satLon \<longrightarrow>
      js_lt (calculateElevation (Fin lat2) (Fin lon2) (Fin satLon))
            (calculateElevation (Fin lat1) (Fin lon1) (Fin satLon)))
   \<and> (cosGammaOf lat lon satLon = horizonCos \<longrightarrow>
      calculateElevation (Fin lat) (Fin lon) (Fin satLon) = Fin 0)"
  using elevation_decreasing elevation_horizon by blast

lemma cosGammaOf_60: "cosGammaOf 60 0 0 = 1 / 2"
proof -
  have "(60 :: real) * pi / 180 = pi / 3" by simp
  then show ?thesis by (simp add: cosGammaOf_def cos_60)
qed

lemma separation_60: "separation 0 0 0 < separation 60 0 0"
proof -
  have "arccos 1 < arccos (1 / 2 :: real)" by (simp add: arccos_less_mono)
  then show ?thesis by (simp add: separation_def cosGammaOf_60 cosGammaOf_origin)
qed

lemma cosGammaOf_horizon: "cosGammaOf (arccos horizonCos * 180 / pi) 0 0 = horizonCos"
  using horizonCos_bounds by (simp add: cosGammaOf_def cos_arccos)

theorem elevation_separation_witness:
  "horizonCos \<le> cosGammaOf 60 0 0 \<and> separation 0 0 0 < separation 60 0 0
   \<and> js_lt (calculateElevation (Fin 60) (Fin 0) (Fin 0)) (calculateElevation (Fin 0) (Fin 0) (Fin 0))
   \<and> cosGammaOf (arccos horizonCos * 180 / pi) 0 0 = horizonCos
   \<and> calculateElevation (Fin (arccos horizonCos * 180 / pi)) (Fin 0) (Fin 0) = Fin 0"
proof -
  have v: "horizonCos \<le> cosGammaOf 60 0 0"
    by (simp add: cosGammaOf_60) (simp add: horizonCos_def)
  show ?thesis
    using elevation_separation [where ?lat2.0 = 60 and ?lon2.0 = 0 and satLon = 0
        and ?lat1.0 = 0 and ?lon1.0 = 0 and lat = "arccos horizonCos * 180 / pi" and lon = 0]
      v separation_60 cosGammaOf_horizon
    by blast
qed

subsection \<open>Enclosures of the sine, the cosine and \<open>pi\<close>\<close>

text \<open>
  Concrete inputs need the values of the trigonometric functions at concrete angles. They
  come from the Taylor polynomials of degree 7 and 6 with their remainders, from the
  monotonicity of the sine and the cosine, and from \<open>sin (pi / 6) = 1 / 2\<close> for \<open>pi\<close>.
\<close>

lemma sum_upto9: "(\<Sum>m<9. f m) = f 0 + f 1 + f 2 + f 3 + f 4 + f 5 + f 6 + f 7 + (f 8 :: real)"
  for f :: "nat \<Rightarrow> real"
proof -
  have "{..<9::nat} = {0, 1, 2, 3, 4, 5, 6, 7, 8}" by auto
  then show ?thesis by simp
qed

lemma sin_coeffs:
  "sin_coeff 0 = 0" "sin_coeff 1 = 1" "sin_coeff 2 = 0" "sin_coeff 3 = - 1 / 6"
  "sin_coeff 4 = 0" "sin_coeff 5 = 1 / 120" "sin_coeff 6 = 0" "sin_coeff 7 = - 1 / 5040"
  "sin_coeff 8 = 0"
  by (simp_all add: sin_coeff_def fact_numeral)

lemma cos_coeffs:
  "cos_coeff 0 = 1" "cos_coeff 1 = 0" "cos_coeff 2 = - 1 / 2" "cos_coeff 3 = 0"
  "cos_coeff 4 = 1 / 24" "cos_coeff 5 = 0" "cos_coeff 6 = - 1 / 720" "cos_coeff 7 = 0"
  by (simp_all add: cos_coeff_def fact_numeral)

lemma sum_upto8: "(\<Sum>m<8. f m) = f 0 + f 1 + f 2 + f 3 + f 4 + f 5 + f 6 + (f 7 :: real)"
  for f :: "nat \<Rightarrow> real"
proof -
  have "{..<8::nat} = {0, 1, 2, 3, 4, 5, 6, 7}" by auto
  then show ?thesis by simp
qed

lemma sin_poly_bound:
  fixes x :: real
  shows "\<bar>sin x - (x - x^3 / 6 + x^5 / 120 - x^7 / 5040)\<bar> \<le> \<bar>x\<bar>^9 / 362880"
proof -
  have s: "(\<Sum>m<9. sin_coeff m * x ^ m) = x - x^3 / 6 + x^5 / 120 - x^7 / 5040"
    unfolding sum_upto9 sin_coeffs by simp
  have "(fact 9 :: real) = 362880" by (simp add: fact_numeral)
  then have f: "inverse (fact 9) * \<bar>x\<bar> ^ 9 = \<bar>x\<bar>^9 / 362880"
    by (simp only: divide_inverse mult.commute)
  show ?thesis using Maclaurin_sin_bound [of x 9] unfolding s f .
qed

lemma cos_poly_bound:
  fixes x :: real
  shows "\<bar>cos x - (1 - x^2 / 2 + x^4 / 24 - x^6 / 720)\<bar> \<le> \<bar>x\<bar>^8 / 40320"
proof -
  obtain t where t: "cos x = (\<Sum>m<8. cos_coeff m * x ^ m)
      + (cos (t + 1 / 2 * real 8 * pi) / fact 8) * x ^ 8"
    using Maclaurin_cos_expansion [of x 8] by blast
  have s: "(\<Sum>m<8. cos_coeff m * x ^ m) = 1 - x^2 / 2 + x^4 / 24 - x^6 / 720"
    unfolding sum_upto8 cos_coeffs by simp
  have f: "(fact 8 :: real) = 40320" by (simp add: fact_numeral)
  have "\<bar>cos x - (1 - x^2 / 2 + x^4 / 24 - x^6 / 720)\<bar>
      = \<bar>cos (t + 1 / 2 * real 8 * pi)\<bar> * \<bar>x\<bar>^8 / 40320"
    unfolding t s f by (simp add: abs_mult power_abs)
  also have "\<dots> \<le> 1 * \<bar>x\<bar>^8 / 40320"
    by (intro divide_right_mono mult_right_mono) simp_all
  finally show ?thesis by simp
qed

lemma sin_enclosure:
  assumes "0 \<le> x"
  shows "sinLow x \<le> sin x \<and> sin x \<le> sinUp x"
proof -
  have "\<bar>x\<bar> = x" using assms by simp
  then have "\<bar>sin x - (x - x^3 / 6 + x^5 / 120 - x^7 / 5040)\<bar> \<le> x^9 / 362880"
    using sin_poly_bound [of x] by simp
  then show ?thesis unfolding sinLow_def sinUp_def by (simp only: abs_le_iff) linarith
qed

lemma cos_enclosure:
  assumes "0 \<le> x"
  shows "cosLow x \<le> cos x \<and> cos x \<le> cosUp x"
proof -
  have "\<bar>x\<bar> = x" using assms by simp
  then have "\<bar>cos x - (1 - x^2 / 2 + x^4 / 24 - x^6 / 720)\<bar> \<le> x^8 / 40320"
    using cos_poly_bound [of x] by simp
  then show ?thesis unfolding cosLow_def cosUp_def by (simp only: abs_le_iff) linarith
qed

lemma pi_lower: "3.1415 < pi"
proof -
  let ?a = "3.1415 / 6 :: real"
  have "sin ?a \<le> sinUp ?a" using sin_enclosure [of ?a] by simp
  also have "sinUp ?a < 1 / 2" by (simp add: sinUp_def power_divide)
  finally have "sin ?a < sin (pi / 6)" by (simp add: sin_30)
  moreover have "?a \<le> pi / 2" using pi_ge_two by simp
  moreover have "- (pi / 2) \<le> ?a" using pi_ge_two by simp
  ultimately have "?a < pi / 6"
    using sin_mono_less_eq [of ?a "pi / 6"] by simp
  then show ?thesis by simp
qed

lemma pi_upper: "pi < 3.1416"
proof -
  let ?b = "3.1416 / 6 :: real"
  have "1 / 2 < sinLow ?b" by (simp add: sinLow_def power_divide)
  also have "sinLow ?b \<le> sin ?b" using sin_enclosure [of ?b] by simp
  finally have "sin (pi / 6) < sin ?b" by (simp add: sin_30)
  moreover have "?b \<le> pi / 2" using pi_ge_two by simp
  moreover have "- (pi / 2) \<le> ?b" using pi_ge_two by simp
  ultimately have "pi / 6 < ?b"
    using sin_mono_less_eq [of "pi / 6" ?b] by simp
  then show ?thesis by simp
qed

text \<open>Enclosures of the sine and cosine of an angle between two rationals.\<close>

lemma sin_between:
  assumes "0 \<le> lo" "lo \<le> x" "x \<le> hi" "hi \<le> 3 / 2"
  shows "sinLow lo \<le> sin x \<and> sin x \<le> sinUp hi"
proof -
  have h: "3 / 2 \<le> pi / 2" using pi_lower by simp
  have "sin lo \<le> sin x"
    using assms h by (intro sin_monotone_2pi_le) linarith+
  moreover have "sin x \<le> sin hi"
    using assms h by (intro sin_monotone_2pi_le) linarith+
  moreover have "0 \<le> hi" using assms by linarith
  ultimately show ?thesis
    using sin_enclosure [of lo] sin_enclosure [of hi] assms(1) by linarith
qed

lemma cos_between:
  assumes "0 \<le> lo" "lo \<le> x" "x \<le> hi" "hi \<le> 3"
  shows "cosLow hi \<le> cos x \<and> cos x \<le> cosUp lo"
proof -
  have h: "3 \<le> pi" using pi_lower by simp
  have "cos hi \<le> cos x"
    using assms h by (intro cos_monotone_0_pi_le) linarith+
  moreover have "cos x \<le> cos lo"
    using assms h by (intro cos_monotone_0_pi_le) linarith+
  moreover have "0 \<le> hi" using assms by linarith
  ultimately show ?thesis
    using cos_enclosure [of lo] cos_enclosure [of hi] assms(1) by linarith
qed

lemma degrees_between:
  assumes "0 \<le> d"
  shows "d * 3.1415 / 180 \<le> d * pi / 180 \<and> d * pi / 180 \<le> d * 3.1416 / 180"
proof -
  have "d * 3.1415 \<le> d * pi"
    using assms pi_lower by (intro mult_left_mono) linarith+
  moreover have "d * pi \<le> d * 3.1416"
    using assms pi_upper by (intro mult_left_mono) linarith+
  ultimately show ?thesis by (simp only: divide_right_mono zero_le_numeral)
qed

lemma trig_degrees:
  assumes d: "0 \<le> d" "d \<le> 85"
    and n: "sl \<le> sinLow (d * 3.1415 / 180)" "sinUp (d * 3.1416 / 180) \<le> su"
      "cl \<le> cosLow (d * 3.1416 / 180)" "cosUp (d * 3.1415 / 180) \<le> cu"
  shows "sl \<le> sin (d * pi / 180) \<and> sin (d * pi / 180) \<le> su
    \<and> cl \<le> cos (d * pi / 180) \<and> cos (d * pi / 180) \<le> cu"
proof -
  let ?lo = "d * 3.1415 / 180" and ?hi = "d * 3.1416 / 180"
  have x: "?lo \<le> d * pi / 180" "d * pi / 180 \<le> ?hi"
    using degrees_between [OF d(1)] by simp_all
  have lo: "0 \<le> ?lo" using d(1) by simp
  have hi: "?hi \<le> 3 / 2" "?hi \<le> 3" using d(2) by simp_all
  have "sinLow ?lo \<le> sin (d * pi / 180)" "sin (d * pi / 180) \<le> sinUp ?hi"
    using sin_between [OF lo x hi(1)] by simp_all
  moreover have "cosLow ?hi \<le> cos (d * pi / 180)" "cos (d * pi / 180) \<le> cosUp ?lo"
    using cos_between [OF lo x hi(2)] by simp_all
  ultimately show ?thesis using n by linarith
qed

lemma sin_cos_25:
  "0.4226 \<le> sin (25 * pi / 180) \<and> sin (25 * pi / 180) \<le> 0.42262
   \<and> 0.9063 \<le> cos (25 * pi / 180) \<and> cos (25 * pi / 180) \<le> 0.90632"
  by (rule trig_degrees)
    (simp_all add: sinLow_def sinUp_def cosLow_def cosUp_def power_divide)

lemma sin_cos_42:
  "0.6691 \<le> sin (42 * pi / 180) \<and> sin (42 * pi / 180) \<le> 0.66914
   \<and> 0.74313 \<le> cos (42 * pi / 180) \<and> cos (42 * pi / 180) \<le> 0.74316"
  by (rule trig_degrees)
    (simp_all add: sinLow_def sinUp_def cosLow_def cosUp_def power_divide)

lemma sin_cos_35_15:
  "0.5757 \<le> sin (35.15 * pi / 180) \<and> sin (35.15 * pi / 180) \<le> 0.57573
   \<and> 0.81764 \<le> cos (35.15 * pi / 180) \<and> cos (35.15 * pi / 180) \<le> 0.81766"
  by (rule trig_degrees)
    (simp_all add: sinLow_def sinUp_def cosLow_def cosUp_def power_divide)

lemma sin_cos_35_35:
  "0.57855 \<le> sin (35.35 * pi / 180) \<and> sin (35.35 * pi / 180) \<le> 0.57858
   \<and> 0.81563 \<le> cos (35.35 * pi / 180) \<and> cos (35.35 * pi / 180) \<le> 0.81565"
  by (rule trig_degrees)
    (simp_all add: sinLow_def sinUp_def cosLow_def cosUp_def power_divide)

lemma sin_cos_8_71:
  "0.15142 \<le> sin (8.71 * pi / 180) \<and> sin (8.71 * pi / 180) \<le> 0.15144
   \<and> 0.98846 \<le> cos (8.71 * pi / 180) \<and> cos (8.71 * pi / 180) \<le> 0.98847"
  by (rule trig_degrees)
    (simp_all add: sinLow_def sinUp_def cosLow_def cosUp_def power_divide)

lemma sin_cos_0_05:
  "0.00087 \<le> sin (0.05 * pi / 180) \<and> sin (0.05 * pi / 180) \<le> 0.00088
   \<and> 0.9999 \<le> cos (0.05 * pi / 180) \<and> cos (0.05 * pi / 180) \<le> 1"
  by (rule trig_degrees)
    (simp_all add: sinLow_def sinUp_def cosLow_def cosUp_def power_divide)

text \<open>A bound on a tangent is a bound on the arctangent, in degrees.\<close>

lemma degrees_half_pi:
  assumes "- 90 < d" "d < 90"
  shows "- (pi / 2) < d * pi / 180" "d * pi / 180 < pi / 2"
proof -
  have "- 90 * pi < d * pi" using assms(1) by (intro mult_strict_right_mono) simp_all
  then show "- (pi / 2) < d * pi / 180" by simp
  have "d * pi < 90 * pi" using assms(2) by (intro mult_strict_right_mono) simp_all
  then show "d * pi / 180 < pi / 2" by simp
qed

lemma arctan_degrees_less:
  assumes "- 90 < d" "d < 90" "q < tan (d * pi / 180)"
  shows "arctan q * 180 / pi < d"
proof -
  have "arctan q < arctan (tan (d * pi / 180))" using assms(3) by (simp only: arctan_less_iff)
  also have "\<dots> = d * pi / 180" using degrees_half_pi [OF assms(1,2)] by (rule arctan_tan)
  finally have "arctan q * 180 < d * pi" by simp
  then show ?thesis by (simp add: pos_divide_less_eq)
qed

lemma arctan_degrees_greater:
  assumes "- 90 < d" "d < 90" "tan (d * pi / 180) < q"
  shows "d < arctan q * 180 / pi"
proof -
  have "arctan (tan (d * pi / 180)) < arctan q" using assms(3) by (simp only: arctan_less_iff)
  moreover have "arctan (tan (d * pi / 180)) = d * pi / 180"
    using degrees_half_pi [OF assms(1,2)] by (rule arctan_tan)
  ultimately have "d * pi < arctan q * 180" by simp
  then show ?thesis by (simp add: pos_less_divide_eq)
qed

subsection \<open>Enclosures of the elevation quotient\<close>

lemma product_between:
  fixes x y :: real
  assumes "a1 \<le> x" "x \<le> a2" "b1 \<le> y" "y \<le> b2" "0 \<le> a1" "0 \<le> b1"
  shows "a1 * b1 \<le> x * y \<and> x * y \<le> a2 * b2"
proof -
  have "0 \<le> x" "0 \<le> y" "0 \<le> a2" using assms by linarith+
  then show ?thesis using assms by (simp add: mult_mono)
qed

lemma quotient_between:
  assumes "horizonCos \<le> cl" "cl \<le> c" "c \<le> cu" "cu < 1"
  shows "elevationQuotient cl \<le> elevationQuotient c
    \<and> elevationQuotient c \<le> elevationQuotient cu"
proof -
  have "elevationQuotient cl \<le> elevationQuotient c"
  proof (cases "cl = c")
    case False
    then have "cl < c" using assms(2) by simp
    from elevationQuotient_mono [OF assms(1) this] assms(3,4) show ?thesis by simp
  qed simp
  moreover have "elevationQuotient c \<le> elevationQuotient cu"
  proof (cases "c = cu")
    case False
    then have "c < cu" using assms(3) by simp
    from elevationQuotient_mono [OF _ this assms(4)] assms(1,2) show ?thesis by simp
  qed simp
  ultimately show ?thesis by simp
qed

lemma quotient_lower:
  assumes "0 \<le> l" "horizonCos \<le> c" "c\<^sup>2 < 1" "l\<^sup>2 * (1 - c\<^sup>2) \<le> (c - horizonCos)\<^sup>2"
  shows "l \<le> elevationQuotient c"
proof -
  have s: "0 < sqrt (1 - c\<^sup>2)" using assms(3) by simp
  have "l * sqrt (1 - c\<^sup>2) = sqrt (l\<^sup>2 * (1 - c\<^sup>2))"
    using assms(1) by (simp add: real_sqrt_mult)
  also have "\<dots> \<le> sqrt ((c - horizonCos)\<^sup>2)" using assms(4) by (simp only: real_sqrt_le_iff)
  also have "\<dots> = c - horizonCos" using assms(2) by simp
  finally show ?thesis using s by (simp add: elevationQuotient_def pos_le_divide_eq)
qed

lemma quotient_upper:
  assumes "0 \<le> u" "horizonCos \<le> c" "c\<^sup>2 < 1" "(c - horizonCos)\<^sup>2 \<le> u\<^sup>2 * (1 - c\<^sup>2)"
  shows "elevationQuotient c \<le> u"
proof -
  have s: "0 < sqrt (1 - c\<^sup>2)" using assms(3) by simp
  have "c - horizonCos = sqrt ((c - horizonCos)\<^sup>2)" using assms(2) by simp
  also have "\<dots> \<le> sqrt (u\<^sup>2 * (1 - c\<^sup>2))" using assms(4) by (simp only: real_sqrt_le_iff)
  also have "\<dots> = u * sqrt (1 - c\<^sup>2)" using assms(1) by (simp add: real_sqrt_mult)
  finally show ?thesis using s by (simp add: elevationQuotient_def pos_divide_le_eq)
qed

lemma calculateElevation_quotient:
  assumes "\<bar>cosGammaOf a b c\<bar> < 1"
  shows "calculateElevation (Fin a) (Fin b) (Fin c)
    = Fin (arctan (elevationQuotient (cosGammaOf a b c)) * 180 / pi)"
  using calculateElevation_inner [OF assms] by (simp add: elevationQuotient_def)

subsection \<open>An observer at 81.29 degrees north, on the meridian of the satellite\<close>

lemma cosGammaOf_north: "cosGammaOf 81.29 0 0 = sin (8.71 * pi / 180)"
proof -
  have "pi / 2 - 81.29 * pi / 180 = 8.71 * pi / 180" by (simp add: field_simps)
  then have "cos (81.29 * pi / 180) = sin (8.71 * pi / 180)"
    using cos_sin_eq [of "81.29 * pi / 180 :: real"] by simp
  then show ?thesis by (simp add: cosGammaOf_def)
qed

lemma quotient_north:
  "0 < elevationQuotient (cosGammaOf 81.29 0 0) \<and> elevationQuotient (cosGammaOf 81.29 0 0) \<le> 0.0002"
proof -
  let ?c = "cosGammaOf 81.29 0 0"
  have c: "0.15142 \<le> ?c" "?c \<le> 0.15144" using sin_cos_8_71 unfolding cosGammaOf_north by simp_all
  have k: "horizonCos \<le> 0.15142" by (simp add: horizonCos_def)
  have b: "elevationQuotient 0.15142 \<le> elevationQuotient ?c"
    "elevationQuotient ?c \<le> elevationQuotient 0.15144"
    using quotient_between [OF k c] by simp_all
  have "(0 :: real) < 0.0001" by simp
  also have "0.0001 \<le> elevationQuotient 0.15142"
    by (rule quotient_lower) (simp_all add: horizonCos_def power2_eq_square)
  also note b(1)
  finally have lower: "0 < elevationQuotient ?c" .
  note b(2)
  also have "elevationQuotient 0.15144 \<le> 0.0002"
    by (rule quotient_upper) (simp_all add: horizonCos_def power2_eq_square)
  finally show ?thesis using lower by simp
qed

lemma elevation_north:
  "\<exists>e. calculateElevation (Fin 81.29) (Fin 0) (Fin 0) = Fin e \<and> 0 < e \<and> e < 0.05"
proof -
  let ?q = "elevationQuotient (cosGammaOf 81.29 0 0)"
  have c: "\<bar>cosGammaOf 81.29 0 0\<bar> < 1" using sin_cos_8_71 unfolding cosGammaOf_north by simp
  have "0 < arctan ?q" using quotient_north by simp
  then have pos: "0 < arctan ?q * 180 / pi" by simp
  have "?q \<le> 0.0002" using quotient_north by simp
  also have "0.0002 < sin (0.05 * pi / 180) / 1" using sin_cos_0_05 by simp
  also have "\<dots> \<le> sin (0.05 * pi / 180) / cos (0.05 * pi / 180)"
    using sin_cos_0_05 by (intro divide_left_mono) simp_all
  finally have "?q < tan (0.05 * pi / 180)" by (simp only: tan_def)
  then have "arctan ?q * 180 / pi < 0.05" by (intro arctan_degrees_less) simp_all
  then show ?thesis using pos unfolding calculateElevation_quotient [OF c] by blast
qed

subsection \<open>The range of the azimuth\<close>

lemma atan2_right: "0 \<le> x \<Longrightarrow> - (pi / 2) \<le> atan2 y x \<and> atan2 y x \<le> pi / 2"
  using arctan_bounded [of "y / x"] pi_gt_zero unfolding atan2_def by (auto; linarith)

lemma atan2_left:
  assumes "x < 0"
  shows "(pi / 2 < atan2 y x \<and> atan2 y x \<le> pi) \<or> (- pi < atan2 y x \<and> atan2 y x < - (pi / 2))"
proof (cases "0 \<le> y")
  case True
  then have "y / x \<le> 0" using assms by (simp add: divide_nonneg_neg)
  then have "arctan (y / x) \<le> 0" by simp
  then show ?thesis using arctan_lbound [of "y / x"] assms True by (simp add: atan2_def)
next
  case False
  then have "0 < y / x" using assms by (simp add: divide_neg_neg)
  then have "0 < arctan (y / x)" by simp
  then show ?thesis using arctan_ubound [of "y / x"] assms False by (simp add: atan2_def)
qed

lemma degrees_le: "t \<le> d * pi / 180 \<Longrightarrow> t * 180 / pi \<le> d"
  by (simp add: pos_divide_le_eq)

lemma degrees_ge: "d * pi / 180 \<le> t \<Longrightarrow> d \<le> t * 180 / pi"
  by (simp add: pos_le_divide_eq)

lemma degrees_less: "t < d * pi / 180 \<Longrightarrow> t * 180 / pi < d"
  by (simp add: pos_divide_less_eq)

lemma degrees_greater: "d * pi / 180 < t \<Longrightarrow> d < t * 180 / pi"
  by (simp add: pos_less_divide_eq)

lemma rawAzimuth_north:
  assumes "0 \<le> a" "a \<le> 90"
  shows "- 90 \<le> rawAzimuth tp a b c \<and> rawAzimuth tp a b c \<le> 90"
proof -
  let ?t = "atan2 (tanOf tp ((c - b) * pi / 180)) (sin (a * pi / 180))"
  have "0 \<le> sin (a * pi / 180)"
    using sin_latitude_pos [of a] assms by (cases "a = 0") simp_all
  from atan2_right [OF this] have "- (pi / 2) \<le> ?t" "?t \<le> pi / 2" by auto
  then have "- 90 * pi / 180 \<le> ?t" "?t \<le> 90 * pi / 180" by simp_all
  then show ?thesis
    unfolding rawAzimuth_def using degrees_le [of ?t 90] degrees_ge [of "- 90" ?t] by blast
qed

lemma rawAzimuth_south:
  assumes "- 90 \<le> a" "a < 0"
  shows "(90 < rawAzimuth tp a b c \<and> rawAzimuth tp a b c \<le> 180)
    \<or> (- 180 < rawAzimuth tp a b c \<and> rawAzimuth tp a b c < - 90)"
proof -
  let ?t = "atan2 (tanOf tp ((c - b) * pi / 180)) (sin (a * pi / 180))"
  have "sin (a * pi / 180) < 0" using assms by (rule sin_latitude_neg)
  from atan2_left [OF this]
  have "(90 * pi / 180 < ?t \<and> ?t \<le> 180 * pi / 180)
      \<or> (- 180 * pi / 180 < ?t \<and> ?t < - 90 * pi / 180)" by simp
  then show ?thesis
    unfolding rawAzimuth_def
    using degrees_le [of ?t 180] degrees_greater [of 90 ?t]
      degrees_less [of ?t "- 90"] degrees_greater [of "- 180" ?t] by blast
qed

lemma azimuth_valid:
  assumes "- 90 \<le> a" "a \<le> 90"
  shows "\<exists>az. calculateAzimuth tp (Fin a) (Fin b) (Fin c) = Some (Fin az) \<and> 90 \<le> az \<and> az \<le> 270"
proof (cases "a < 0")
  case True
  let ?r = "rawAzimuth tp a b c"
  from rawAzimuth_south [OF assms(1) True, of tp b c]
  have "90 \<le> wrap360 ?r \<and> wrap360 ?r \<le> 270"
  proof
    assume r: "90 < ?r \<and> ?r \<le> 180"
    then have "wrap360 ?r = ?r" by (intro wrap360_id) simp_all
    then show ?thesis using r by simp
  next
    assume r: "- 180 < ?r \<and> ?r < - 90"
    then have "wrap360 (?r + 360) = ?r + 360" by (intro wrap360_id) simp_all
    then have "wrap360 ?r = ?r + 360" by (simp only: wrap360_add)
    then show ?thesis using r by simp
  qed
  then show ?thesis using True by (simp add: calculateAzimuth_Fin)
next
  case False
  let ?r = "rawAzimuth tp a b c"
  have r: "- 90 \<le> ?r \<and> ?r \<le> 90" using False assms(2) by (intro rawAzimuth_north) simp_all
  then have "wrap360 (180 + ?r) = 180 + ?r" by (intro wrap360_id) simp_all
  then show ?thesis using False r by (simp add: calculateAzimuth_Fin)
qed

lemma round_js_range:
  assumes "90 \<le> az" "az \<le> 270"
  shows "\<exists>f. round_js (Fin az) 1 = Fin f \<and> 90 \<le> f \<and> f \<le> 270"
proof -
  have "900 \<le> \<lfloor>az * 10 + 1 / 2\<rfloor>" using assms(1) by (simp add: le_floor_iff)
  moreover have "\<lfloor>az * 10 + 1 / 2\<rfloor> \<le> 2700" using assms(2) by (simp add: floor_le_iff)
  ultimately have "90 \<le> real_of_int \<lfloor>az * 10 + 1 / 2\<rfloor> / 10"
    "real_of_int \<lfloor>az * 10 + 1 / 2\<rfloor> / 10 \<le> 270" by simp_all
  then show ?thesis unfolding round_js_Fin by blast
qed

lemma round_js_positive:
  assumes "js_gt (round_js (Fin e) 1) (Fin 0)"
  shows "0 < e"
proof -
  have "0 < real_of_int \<lfloor>e * 10 + 1 / 2\<rfloor>"
    using assms unfolding round_js_Fin by (simp add: js_gt_def)
  then have "1 \<le> \<lfloor>e * 10 + 1 / 2\<rfloor>" by simp
  then have "1 \<le> e * 10 + 1 / 2" by (simp only: le_floor_iff)
  then show ?thesis by simp
qed

lemma calculateElevation_is_Fin: "\<exists>e. calculateElevation (Fin a) (Fin b) (Fin c) = Fin e"
  using calculateElevation_finite [of a b c]
  by (cases "calculateElevation (Fin a) (Fin b) (Fin c)") simp_all

lemma qualityRank_mono:
  "e1 \<le> e2 \<Longrightarrow> qualityRank (signalQualityOf (Fin e1)) \<le> qualityRank (signalQualityOf (Fin e2))"
  by (simp add: signalQualityOf_Fin qualityRank_def)

lemma signalQualityOf_none: "signalQualityOf (Fin e) = ''none'' \<longleftrightarrow> \<not> 0 < e"
  by (simp add: signalQualityOf_Fin)

text \<open>
  Claim C1, as the code has it. For a valid input \<open>calculateAll\<close> returns a solution whose
  azimuth field lies in \<open>[0, 360)\<close>; \<open>isVisible\<close> holds exactly when the elevation
  before rounding, the value of \<open>calculateElevation\<close>, is above 0; \<open>signalQuality\<close> is
  \<open>none\<close> exactly when the satellite is not visible, and it is a monotonic step function
  of the elevation before rounding. Of the returned elevation field one direction holds: a
  field above 0 means visible.
\<close>

theorem solution_invariant:
  "(validInput obsLat obsLon satLon \<longrightarrow>
      (\<exists>s e. calculateAll tanPole (Fin obsLat) (Fin obsLon) (Fin satLon) = Some s
         \<and> calculateElevation (Fin obsLat) (Fin obsLon) (Fin satLon) = Fin e
         \<and> (\<exists>a. azimuth s = Fin a \<and> 0 \<le> a \<and> a < 360)
         \<and> (isVisible s \<longleftrightarrow> 0 < e)
         \<and> (signalQuality s = ''none'' \<longleftrightarrow> \<not> isVisible s)
         \<and> signalQuality s = signalQualityOf (Fin e)
         \<and> (js_gt (elevation s) (Fin 0) \<longrightarrow> isVisible s)))
   \<and> (e1 \<le> e2 \<longrightarrow>
        qualityRank (signalQualityOf (Fin e1)) \<le> qualityRank (signalQualityOf (Fin e2)))"
proof (intro conjI impI)
  assume v: "validInput obsLat obsLon satLon"
  then have lat: "- 90 \<le> obsLat" "obsLat \<le> 90" by (simp_all add: validInput_def)
  obtain az where az: "calculateAzimuth tanPole (Fin obsLat) (Fin obsLon) (Fin satLon) = Some (Fin az)"
    "90 \<le> az" "az \<le> 270"
    using azimuth_valid [OF lat] by blast
  obtain f where f: "round_js (Fin az) 1 = Fin f" "90 \<le> f" "f \<le> 270"
    using round_js_range [OF az(2,3)] by blast
  obtain e where e: "calculateElevation (Fin obsLat) (Fin obsLon) (Fin satLon) = Fin e"
    using calculateElevation_is_Fin by blast
  let ?s = "\<lparr>azimuth = round_js (Fin az) 1, elevation = round_js (Fin e) 1,
    lnbTilt = round_js (calculateLNBTilt tanPole (Fin obsLat) (Fin obsLon) (Fin satLon)) 1,
    isVisible = js_gt (Fin e) (Fin 0), signalQuality = signalQualityOf (Fin e)\<rparr>"
  have s: "calculateAll tanPole (Fin obsLat) (Fin obsLon) (Fin satLon) = Some ?s"
    unfolding calculateAll_def az(1) e by (simp add: Let_def)
  have a: "\<exists>a. azimuth ?s = Fin a \<and> 0 \<le> a \<and> a < 360" using f by simp
  have vis: "isVisible ?s \<longleftrightarrow> 0 < e" by (simp add: js_gt_def)
  have q: "signalQuality ?s = ''none'' \<longleftrightarrow> \<not> isVisible ?s"
    using signalQualityOf_none [of e] by (simp add: js_gt_def)
  have r: "js_gt (elevation ?s) (Fin 0) \<longrightarrow> isVisible ?s"
    using round_js_positive [of e] by (simp add: js_gt_def)
  have "calculateAll tanPole (Fin obsLat) (Fin obsLon) (Fin satLon) = Some ?s
         \<and> calculateElevation (Fin obsLat) (Fin obsLon) (Fin satLon) = Fin e
         \<and> (\<exists>a. azimuth ?s = Fin a \<and> 0 \<le> a \<and> a < 360)
         \<and> (isVisible ?s \<longleftrightarrow> 0 < e)
         \<and> (signalQuality ?s = ''none'' \<longleftrightarrow> \<not> isVisible ?s)
         \<and> signalQuality ?s = signalQualityOf (Fin e)
         \<and> (js_gt (elevation ?s) (Fin 0) \<longrightarrow> isVisible ?s)"
    using s e a vis q r by simp
  then show "\<exists>s e. calculateAll tanPole (Fin obsLat) (Fin obsLon) (Fin satLon) = Some s
         \<and> calculateElevation (Fin obsLat) (Fin obsLon) (Fin satLon) = Fin e
         \<and> (\<exists>a. azimuth s = Fin a \<and> 0 \<le> a \<and> a < 360)
         \<and> (isVisible s \<longleftrightarrow> 0 < e)
         \<and> (signalQuality s = ''none'' \<longleftrightarrow> \<not> isVisible s)
         \<and> signalQuality s = signalQualityOf (Fin e)
         \<and> (js_gt (elevation s) (Fin 0) \<longrightarrow> isVisible s)"
    by blast
next
  assume "e1 \<le> e2"
  then show "qualityRank (signalQualityOf (Fin e1)) \<le> qualityRank (signalQualityOf (Fin e2))"
    by (rule qualityRank_mono)
qed

theorem solution_invariant_witness:
  "validInput 0 0 0 \<and> (5 :: real) \<le> 25
   \<and> (\<exists>s e. calculateAll tanPoleDouble (Fin 0) (Fin 0) (Fin 0) = Some s
         \<and> calculateElevation (Fin 0) (Fin 0) (Fin 0) = Fin e
         \<and> (\<exists>a. azimuth s = Fin a \<and> 0 \<le> a \<and> a < 360)
         \<and> (isVisible s \<longleftrightarrow> 0 < e)
         \<and> (signalQuality s = ''none'' \<longleftrightarrow> \<not> isVisible s)
         \<and> signalQuality s = signalQualityOf (Fin e)
         \<and> (js_gt (elevation s) (Fin 0) \<longrightarrow> isVisible s))
   \<and> qualityRank (signalQualityOf (Fin 5)) \<le> qualityRank (signalQualityOf (Fin 25))"
proof -
  have h: "validInput 0 0 0" "(5 :: real) \<le> 25" by (simp_all add: validInput_def)
  show ?thesis
    using solution_invariant [where obsLat = 0 and obsLon = 0 and satLon = 0
        and tanPole = tanPoleDouble and ?e1.0 = 5 and ?e2.0 = 25] h
    by blast
qed

subsection \<open>Visible with a returned elevation of zero\<close>

lemma round_js_small:
  assumes "0 \<le> e" "e < 0.05"
  shows "round_js (Fin e) 1 = Fin 0"
proof -
  have "\<lfloor>e * 10 + 1 / 2\<rfloor> = 0" using assms by (simp add: floor_eq_iff)
  then show ?thesis unfolding round_js_Fin by simp
qed

lemma round_js_180: "round_js (Fin 180) 1 = Fin 180"
  by (simp add: round_js_def)

lemma calculateAzimuth_meridian:
  assumes "0 < a" "a \<le> 90"
  shows "calculateAzimuth tp (Fin a) (Fin x) (Fin x) = Some (Fin 180)"
proof -
  have "0 < sin (a * pi / 180)" using assms by (rule sin_latitude_pos)
  then have "rawAzimuth tp a x x = 0" by (simp add: rawAzimuth_def atan2_def tanOf_def)
  then show ?thesis using assms(1) by (simp add: calculateAzimuth_Fin wrap360_id)
qed

lemma calculateLNBTilt_meridian:
  assumes "0 < a" "a \<le> 90" "tp (a * pi / 180) \<noteq> 0"
  shows "calculateLNBTilt tp (Fin a) (Fin x) (Fin x) = Fin 0"
proof -
  have "sin (a * pi / 180) \<noteq> 0" using sin_latitude_pos [OF assms(1,2)] by simp
  then have "tanOf tp (a * pi / 180) \<noteq> 0" using assms(3) by (rule tanOf_nonzero)
  then show ?thesis by (simp add: calculateLNBTilt_Fin toDegrees_Fin)
qed

text \<open>
  Claim C1 as stated fails for the valid input \<open>obsLat = 81.29\<close>, \<open>obsLon = satLon = 0\<close>:
  the elevation is between 0 and 0.05 degrees, so the satellite is visible and its signal
  poor, and the returned elevation rounds to 0, which is not above 0.
\<close>

theorem visible_at_zero_elevation:
  "validInput 81.29 0 0
   \<and> calculateAll tanPoleDouble (Fin 81.29) (Fin 0) (Fin 0) = Some northEdgeSolution
   \<and> isVisible northEdgeSolution
   \<and> \<not> js_gt (elevation northEdgeSolution) (Fin 0)"
proof -
  obtain e where e: "calculateElevation (Fin 81.29) (Fin 0) (Fin 0) = Fin e" "0 < e" "e < 0.05"
    using elevation_north by blast
  have az: "calculateAzimuth tanPoleDouble (Fin 81.29) (Fin 0) (Fin 0) = Some (Fin 180)"
    by (rule calculateAzimuth_meridian) simp_all
  have t: "calculateLNBTilt tanPoleDouble (Fin 81.29) (Fin 0) (Fin 0) = Fin 0"
    by (rule calculateLNBTilt_meridian) (simp_all add: tanPoleDouble_def)
  have r: "round_js (Fin e) 1 = Fin 0" using e(2,3) by (intro round_js_small) simp_all
  have r0: "round_js (Fin 0) 1 = Fin 0" by (intro round_js_small) simp_all
  have q: "signalQualityOf (Fin e) = ''poor''" using e(2,3) by (simp add: signalQualityOf_Fin)
  have "calculateAll tanPoleDouble (Fin 81.29) (Fin 0) (Fin 0) = Some northEdgeSolution"
    unfolding calculateAll_def az e(1) t
    using e(2)
    by (simp add: Let_def r [unfolded One_nat_def] r0 [unfolded One_nat_def]
        round_js_180 [unfolded One_nat_def] q js_gt_def northEdgeSolution_def)
  moreover have "validInput 81.29 0 0" by (simp add: validInput_def)
  ultimately show ?thesis by (simp add: northEdgeSolution_def js_gt_def)
qed

subsection \<open>Dubai and Hotbird\<close>

lemma tan_upper:
  fixes x :: real
  assumes "0 \<le> sin x" "sin x \<le> su" "0 < cl" "cl \<le> cos x"
  shows "tan x \<le> su / cl"
proof -
  have "sin x / cos x \<le> su / cl" using assms by (intro frac_le) simp_all
  then show ?thesis by (simp add: tan_def)
qed

lemma tan_lower:
  fixes x :: real
  assumes "0 \<le> sl" "sl \<le> sin x" "0 < cos x" "cos x \<le> cu"
  shows "sl / cu \<le> tan x"
proof -
  have "sl / cu \<le> sin x / cos x" using assms by (intro frac_le) simp_all
  then show ?thesis by (simp add: tan_def)
qed

lemma cosGammaOf_dubai: "cosGammaOf 25 55 13 = cos (25 * pi / 180) * cos (42 * pi / 180)"
proof -
  have "(13 - 55) * pi / 180 = - (42 * pi / 180)" by simp
  then have "cos ((13 - 55) * pi / 180) = cos (42 * pi / 180)" by (simp only: cos_minus)
  then show ?thesis unfolding cosGammaOf_def by (simp only:)
qed

lemma cosGammaOf_dubai_bounds: "0.67349 \<le> cosGammaOf 25 55 13 \<and> cosGammaOf 25 55 13 \<le> 0.67355"
proof -
  have "0.9063 * 0.74313 \<le> cos (25 * pi / 180) * cos (42 * pi / 180)
      \<and> cos (25 * pi / 180) * cos (42 * pi / 180) \<le> 0.90632 * 0.74316"
    using sin_cos_25 sin_cos_42 by (intro product_between) simp_all
  then show ?thesis unfolding cosGammaOf_dubai by simp
qed

lemma quotient_dubai:
  "0.7064 \<le> elevationQuotient (cosGammaOf 25 55 13)
   \<and> elevationQuotient (cosGammaOf 25 55 13) \<le> 0.7067"
proof -
  let ?c = "cosGammaOf 25 55 13"
  have c: "0.67349 \<le> ?c" "?c \<le> 0.67355" using cosGammaOf_dubai_bounds by simp_all
  have k: "horizonCos \<le> 0.67349" by (simp add: horizonCos_def)
  have b: "elevationQuotient 0.67349 \<le> elevationQuotient ?c"
    "elevationQuotient ?c \<le> elevationQuotient 0.67355"
    using quotient_between [OF k c] by simp_all
  have "0.7064 \<le> elevationQuotient 0.67349"
    by (rule quotient_lower) (simp_all add: horizonCos_def power2_eq_square)
  also note b(1)
  finally have lower: "0.7064 \<le> elevationQuotient ?c" .
  note b(2)
  also have "elevationQuotient 0.67355 \<le> 0.7067"
    by (rule quotient_upper) (simp_all add: horizonCos_def power2_eq_square)
  finally show ?thesis using lower by simp
qed

lemma elevation_dubai:
  "\<exists>e. calculateElevation (Fin 25) (Fin 55) (Fin 13) = Fin e \<and> 35.15 < e \<and> e < 35.35"
proof -
  let ?q = "elevationQuotient (cosGammaOf 25 55 13)"
  have c: "\<bar>cosGammaOf 25 55 13\<bar> < 1" using cosGammaOf_dubai_bounds by simp
  have "tan (35.15 * pi / 180) \<le> 0.57573 / 0.81764"
    using sin_cos_35_15 by (intro tan_upper) simp_all
  also have "\<dots> < 0.7064" by simp
  also have "0.7064 \<le> ?q" using quotient_dubai by simp
  finally have "tan (35.15 * pi / 180) < ?q" .
  then have lower: "35.15 < arctan ?q * 180 / pi" by (intro arctan_degrees_greater) simp_all
  have "?q \<le> 0.7067" using quotient_dubai by simp
  also have "0.7067 < 0.57855 / (0.81565 :: real)" by simp
  also have "\<dots> \<le> tan (35.35 * pi / 180)"
    using sin_cos_35_35 by (intro tan_lower) simp_all
  finally have "?q < tan (35.35 * pi / 180)" .
  then have "arctan ?q * 180 / pi < 35.35" by (intro arctan_degrees_less) simp_all
  then show ?thesis using lower unfolding calculateElevation_quotient [OF c] by blast
qed

lemma round_js_elevation_dubai:
  assumes "35.15 < e" "e < 35.35"
  shows "\<exists>f. round_js (Fin e) 1 = Fin f \<and> 35.2 \<le> f \<and> f \<le> 35.3"
proof -
  have "352 \<le> \<lfloor>e * 10 + 1 / 2\<rfloor>" using assms(1) by (simp add: le_floor_iff)
  moreover have "\<lfloor>e * 10 + 1 / 2\<rfloor> < 354" using assms(2) by (simp add: floor_less_iff)
  ultimately have "35.2 \<le> real_of_int \<lfloor>e * 10 + 1 / 2\<rfloor> / 10"
    "real_of_int \<lfloor>e * 10 + 1 / 2\<rfloor> / 10 \<le> 35.3" by simp_all
  then show ?thesis unfolding round_js_Fin by blast
qed

lemma tilt_dubai:
  "\<exists>t. calculateLNBTilt tp (Fin 25) (Fin 55) (Fin 13) = Fin t \<and> t < - 45"
proof -
  let ?q = "sin ((13 - 55) * pi / 180) / tan (25 * pi / 180)"
  have c25: "cos (25 * pi / 180) \<noteq> 0" using sin_cos_25 by simp
  have t25: "tan (25 * pi / 180) \<le> 0.42262 / 0.9063"
    using sin_cos_25 by (intro tan_upper) simp_all
  have "(0 :: real) < 0.4226 / 0.90632" by simp
  also have "\<dots> \<le> tan (25 * pi / 180)" using sin_cos_25 by (intro tan_lower) simp_all
  finally have pos: "0 < tan (25 * pi / 180)" .
  have "(13 - 55) * pi / 180 = - (42 * pi / 180)" by simp
  then have s: "sin ((13 - 55) * pi / 180) = - sin (42 * pi / 180)" by (simp only: sin_minus)
  have "tan (25 * pi / 180) < sin (42 * pi / 180)" using t25 sin_cos_42 by simp
  then have "?q < - 1" unfolding s using pos by (simp add: pos_divide_less_eq)
  moreover have "tan (- 45 * pi / 180) = - 1"
  proof -
    have "- 45 * pi / 180 = - (pi / 4)" by simp
    then show ?thesis by (simp only: tan_minus tan_45)
  qed
  ultimately have "?q < tan (- 45 * pi / 180)" by simp
  then have "arctan ?q * 180 / pi < - 45" by (intro arctan_degrees_less) simp_all
  moreover have "calculateLNBTilt tp (Fin 25) (Fin 55) (Fin 13) = Fin (arctan ?q * 180 / pi)"
    unfolding calculateLNBTilt_Fin using c25 pos by (simp add: tanOf_def toDegrees_Fin)
  ultimately show ?thesis by blast
qed

lemma round_js_negative:
  assumes "t < - 45"
  shows "\<exists>f. round_js (Fin t) 1 = Fin f \<and> f < 0"
proof -
  have "\<lfloor>t * 10 + 1 / 2\<rfloor> < 0" using assms by (simp add: floor_less_iff)
  then have "real_of_int \<lfloor>t * 10 + 1 / 2\<rfloor> / 10 < 0" by simp
  then show ?thesis unfolding round_js_Fin by blast
qed

lemma radicand_antimono: "c1 \<le> c2 \<Longrightarrow> radicand c2 \<le> radicand c1"
  by (simp add: radicand_def)

lemma distance_dubai:
  "\<exists>N :: int. calculateDistance (Fin 25) (Fin 55) (Fin 13) = Fin (of_int N)
     \<and> 38160 \<le> N \<and> N \<le> 38161"
proof -
  let ?c = "cosGammaOf 25 55 13"
  have c: "0.67349 \<le> ?c" "?c \<le> 0.67355" using cosGammaOf_dubai_bounds by simp_all
  have "38160\<^sup>2 \<le> radicand 0.67355" by (simp add: radicand_def power2_eq_square)
  also have "\<dots> \<le> radicand ?c" using c(2) by (rule radicand_antimono)
  finally have lo: "38160 \<le> sqrt (radicand ?c)" by (rule real_le_rsqrt)
  have "radicand ?c \<le> radicand 0.67349" using c(1) by (rule radicand_antimono)
  also have "\<dots> \<le> 38161\<^sup>2" by (simp add: radicand_def power2_eq_square)
  finally have hi: "sqrt (radicand ?c) \<le> 38161" by (intro real_le_lsqrt) simp_all
  have "38160 \<le> \<lfloor>sqrt (radicand ?c) + 1 / 2\<rfloor>" using lo by (simp add: le_floor_iff)
  moreover have "\<lfloor>sqrt (radicand ?c) + 1 / 2\<rfloor> \<le> 38161" using hi by (simp add: floor_le_iff)
  ultimately show ?thesis unfolding calculateDistance_Fin by blast
qed

lemma azimuth_dubai:
  "\<exists>az. calculateAzimuth tp (Fin 25) (Fin 55) (Fin 13) = Some (Fin az) \<and> 90 \<le> az \<and> az < 180"
proof -
  let ?r = "rawAzimuth tp 25 55 13"
  have d: "(13 - 55) * pi / 180 = - (42 * pi / 180)" by simp
  have c42: "cos (42 * pi / 180) \<noteq> 0" using sin_cos_42 by simp
  have "(0 :: real) < 0.6691 / 0.74316" by simp
  also have "\<dots> \<le> tan (42 * pi / 180)" using sin_cos_42 by (intro tan_lower) simp_all
  finally have "0 < tan (42 * pi / 180)" .
  then have y: "tanOf tp ((13 - 55) * pi / 180) < 0"
    unfolding d using c42 by (simp add: tanOf_def)
  have x: "0 < sin (25 * pi / 180)" using sin_cos_25 by simp
  have "tanOf tp ((13 - 55) * pi / 180) / sin (25 * pi / 180) < 0"
    using x y by (simp add: divide_neg_pos)
  then have "arctan (tanOf tp ((13 - 55) * pi / 180) / sin (25 * pi / 180)) < 0" by simp
  then have "arctan (tanOf tp ((13 - 55) * pi / 180) / sin (25 * pi / 180)) * 180 / pi < 0"
    by (simp add: divide_neg_pos mult_neg_pos)
  then have neg: "?r < 0" unfolding rawAzimuth_def atan2_def using x by simp
  have lo: "- 90 \<le> ?r" using rawAzimuth_north [of 25 tp 55 13] by simp
  then have "wrap360 (180 + ?r) = 180 + ?r" using neg by (intro wrap360_id) simp_all
  then show ?thesis using lo neg by (simp add: calculateAzimuth_Fin)
qed

lemma round_js_azimuth_dubai:
  assumes "90 \<le> az" "az < 180"
  shows "\<exists>f. round_js (Fin az) 1 = Fin f \<and> 90 \<le> f \<and> f \<le> 180"
proof -
  have "900 \<le> \<lfloor>az * 10 + 1 / 2\<rfloor>" using assms(1) by (simp add: le_floor_iff)
  moreover have "\<lfloor>az * 10 + 1 / 2\<rfloor> \<le> 1800" using assms(2) by (simp add: floor_le_iff)
  ultimately have "90 \<le> real_of_int \<lfloor>az * 10 + 1 / 2\<rfloor> / 10"
    "real_of_int \<lfloor>az * 10 + 1 / 2\<rfloor> / 10 \<le> 180" by simp_all
  then show ?thesis unfolding round_js_Fin by blast
qed

lemma dubai_fields:
  "\<exists>s a e t. calculateAll tp (Fin 25) (Fin 55) (Fin 13) = Some s
     \<and> azimuth s = Fin a \<and> 90 \<le> a \<and> a \<le> 180
     \<and> elevation s = Fin e \<and> 35.2 \<le> e \<and> e \<le> 35.3
     \<and> isVisible s \<and> signalQuality s = ''excellent''
     \<and> lnbTilt s = Fin t \<and> t < 0"
proof -
  obtain az where az: "calculateAzimuth tp (Fin 25) (Fin 55) (Fin 13) = Some (Fin az)"
    "90 \<le> az" "az < 180" using azimuth_dubai by blast
  obtain a where a: "round_js (Fin az) 1 = Fin a" "90 \<le> a" "a \<le> 180"
    using round_js_azimuth_dubai [OF az(2,3)] by blast
  obtain e0 where e0: "calculateElevation (Fin 25) (Fin 55) (Fin 13) = Fin e0"
    "35.15 < e0" "e0 < 35.35" using elevation_dubai by blast
  obtain e where e: "round_js (Fin e0) 1 = Fin e" "35.2 \<le> e" "e \<le> 35.3"
    using round_js_elevation_dubai [OF e0(2,3)] by blast
  obtain t0 where t0: "calculateLNBTilt tp (Fin 25) (Fin 55) (Fin 13) = Fin t0" "t0 < - 45"
    using tilt_dubai by blast
  obtain t where t: "round_js (Fin t0) 1 = Fin t" "t < 0"
    using round_js_negative [OF t0(2)] by blast
  let ?s = "\<lparr>azimuth = Fin a, elevation = Fin e, lnbTilt = Fin t, isVisible = True,
    signalQuality = ''excellent''\<rparr>"
  have q: "signalQualityOf (Fin e0) = ''excellent''" "js_gt (Fin e0) (Fin 0)"
    using e0(2) by (simp_all add: signalQualityOf_Fin js_gt_def)
  have "calculateAll tp (Fin 25) (Fin 55) (Fin 13) = Some ?s"
    unfolding calculateAll_def az(1) e0(1) t0(1)
    by (simp add: Let_def a(1) [unfolded One_nat_def] e(1) [unfolded One_nat_def]
        t(1) [unfolded One_nat_def] q)
  moreover have "azimuth ?s = Fin a" "elevation ?s = Fin e" "lnbTilt ?s = Fin t"
    "isVisible ?s" "signalQuality ?s = ''excellent''" by simp_all
  ultimately show ?thesis using a(2,3) e(2,3) t(2) by blast
qed

text \<open>
  Claim C4, as the code has it. For an observer at 25 degrees north, 55 degrees east and a
  satellite at 13 degrees east, \<open>calculateAll\<close> returns an elevation of 35.2 or 35.3 degrees
  (so between 35 and 36, not between 27 and 29), the satellite is visible and the signal
  excellent, the tilt is negative, and \<open>calculateDistance\<close> returns 38160 or 38161 km,
  which is between 38000 and 39000. The azimuth is left out of this statement.
\<close>

theorem dubai_hotbird:
  "(\<exists>s e t. calculateAll tanPole (Fin 25) (Fin 55) (Fin 13) = Some s
      \<and> elevation s = Fin e \<and> 35.2 \<le> e \<and> e \<le> 35.3
      \<and> isVisible s \<and> signalQuality s = ''excellent''
      \<and> lnbTilt s = Fin t \<and> t < 0)
   \<and> (\<exists>N :: int. calculateDistance (Fin 25) (Fin 55) (Fin 13) = Fin (of_int N)
      \<and> 38160 \<le> N \<and> N \<le> 38161)"
  using dubai_fields [of tanPole] distance_dubai by blast

text \<open>
  Claim C4 as stated fails: for that input the returned elevation is above 29 degrees and
  the returned azimuth is below 249 degrees (it is at most 180).
\<close>

theorem dubai_outside_bands:
  "calculateAll tanPoleDouble (Fin 25) (Fin 55) (Fin 13) \<noteq> None
   \<and> js_gt (elevation (the (calculateAll tanPoleDouble (Fin 25) (Fin 55) (Fin 13)))) (Fin 29)
   \<and> js_lt (azimuth (the (calculateAll tanPoleDouble (Fin 25) (Fin 55) (Fin 13)))) (Fin 249)"
proof -
  obtain s a e where s: "calculateAll tanPoleDouble (Fin 25) (Fin 55) (Fin 13) = Some s"
    "azimuth s = Fin a" "a \<le> 180" "elevation s = Fin e" "35.2 \<le> e"
    using dubai_fields [of tanPoleDouble] by blast
  then show ?thesis by (simp add: js_gt_def)
qed

end
